theory Spec2Isabelle
  imports Main "HOL-Library.Word"
begin

section \<open>JavaScript strings\<close>

text \<open>
  A JavaScript string is a sequence of 16-bit code units. The case mappings
  \<open>String.prototype.toUpperCase\<close> and \<open>toLowerCase\<close> are built into the language and
  follow the Unicode tables; they are parameters of every function below that calls
  them. \<open>trim\<close> and the regular expression class \<open>\<bsol>d\<close> are fixed by ECMAScript and
  are defined here: \<open>\<bsol>d\<close> is \<open>0..9\<close>, and the white space of \<open>trim\<close> is TAB, LF, VT,
  FF, CR, SPACE, NBSP, U+1680, U+2000 to U+200A, U+2028, U+2029, U+202F, U+205F,
  U+3000 and U+FEFF.
\<close>

type_synonym code_unit = "16 word"

type_synonym js_string = "code_unit list"

definition js :: "string \<Rightarrow> js_string" where
  \<comment> \<open>the JavaScript string of an ASCII literal\<close>
  "js s = map (\<lambda>c. of_nat (of_char c)) s"

definition SPACE :: code_unit where
  "SPACE = 0x20"

definition is_digit :: "code_unit \<Rightarrow> bool" where
  \<comment> \<open>the regular expression \<open>/^\<bsol>d+$/\<close> tested on a string of one unit\<close>
  "is_digit c = (0x30 \<le> unat c \<and> unat c \<le> 0x39)"

definition is_ws :: "code_unit \<Rightarrow> bool" where
  "is_ws c =
     (unat c \<in> {0x9, 0xA, 0xB, 0xC, 0xD, 0x20, 0xA0, 0x1680, 0x2028, 0x2029, 0x202F, 0x205F,
                0x3000, 0xFEFF}
      \<or> (0x2000 \<le> unat c \<and> unat c \<le> 0x200A))"

definition trimStart :: "js_string \<Rightarrow> js_string" where
  "trimStart s = dropWhile is_ws s"

definition trimEnd :: "js_string \<Rightarrow> js_string" where
  "trimEnd s = rev (dropWhile is_ws (rev s))"

definition trim :: "js_string \<Rightarrow> js_string" where
  "trim s = trimEnd (trimStart s)"

text \<open>
  What the proofs use of \<open>toUpperCase\<close>. Upper-casing is done code point by code
  point without regard to context, a digit and the space have no case and are no
  part of a surrogate pair, and no letter's upper case contains a digit or white
  space. Hence: the mapping is idempotent; it maps the empty string to itself; it
  splits at every digit and every space, which it leaves alone; a digit or a space in
  the result was in the argument; and it commutes with trimming at either end.
  Nothing is assumed about the length of the result or about single units, so that
  sharp s (U+00DF) may become \<open>SS\<close>.
\<close>

definition upperCaseLaws :: "(js_string \<Rightarrow> js_string) \<Rightarrow> bool" where
  "upperCaseLaws up =
     ((\<forall>xs. up (up xs) = up xs)
      \<and> up [] = []
      \<and> (\<forall>xs c ys. is_digit c \<or> c = SPACE \<longrightarrow> up (xs @ c # ys) = up xs @ c # up ys)
      \<and> (\<forall>xs c. c \<in> set (up xs) \<and> (is_digit c \<or> c = SPACE) \<longrightarrow> c \<in> set xs)
      \<and> (\<forall>xs. up (trimStart xs) = trimStart (up xs))
      \<and> (\<forall>xs. up (trimEnd xs) = trimEnd (up xs)))"

section \<open>Course subject codes: \<open>parseCourseSubjCode\<close>\<close>

text \<open>
  The first loop of \<open>parseCourseSubjCode\<close>: it copies the units before the first digit,
  skipping spaces, and stops at the first digit or at the end. It returns the index
  reached and the string built.
\<close>

function subjLoop :: "js_string \<Rightarrow> nat \<Rightarrow> js_string \<Rightarrow> nat \<times> js_string" where
  "subjLoop code i s =
     (if i < length code then
        (if is_digit (code ! i) then (i, s)
         else if code ! i = SPACE then subjLoop code (i + 1) s
         else subjLoop code (i + 1) (s @ [code ! i]))
      else (i, s))"
  by pat_completeness auto
termination
  by (relation "measure (\<lambda>(code, i, s). length code - i)") auto

declare subjLoop.simps [simp del]

text \<open>The second loop copies everything from the index reached to the end.\<close>

function restLoop :: "js_string \<Rightarrow> nat \<Rightarrow> js_string \<Rightarrow> js_string" where
  "restLoop code i s =
     (if i < length code then restLoop code (i + 1) (s @ [code ! i]) else s)"
  by pat_completeness auto
termination
  by (relation "measure (\<lambda>(code, i, s). length code - i)") auto

declare restLoop.simps [simp del]

definition parseCourseSubjCode :: "(js_string \<Rightarrow> js_string) \<Rightarrow> js_string \<Rightarrow> js_string" where
  "parseCourseSubjCode toUpperCase code =
     (let (i, s) = subjLoop code 0 [];
          s = s @ [SPACE];
          s = restLoop code i s
      in trim (toUpperCase s))"

definition lead :: "js_string \<Rightarrow> js_string" where
  \<comment> \<open>auxiliary: what \<open>trim\<close> leaves of the part before the first digit\<close>
  "lead A = (if \<forall>c\<in>set A. is_ws c then [] else trimStart A @ [SPACE])"

subsection \<open>A case mapping to evaluate with\<close>

text \<open>
  The Unicode upper and lower case of the units of ASCII and Latin-1, and the
  identity on every other unit: sharp s (U+00DF) becomes \<open>SS\<close>, and the upper case of
  U+00B5 and U+00FF lies outside Latin-1.
  These instances serve to evaluate the functions on examples; no theorem about the
  program depends on them.
\<close>

definition upperUnit :: "code_unit \<Rightarrow> js_string" where
  "upperUnit c =
     (if (0x61 \<le> unat c \<and> unat c \<le> 0x7A) \<or> (0xE0 \<le> unat c \<and> unat c \<le> 0xFE \<and> unat c \<noteq> 0xF7)
      then [of_nat (unat c - 0x20)]
      else if unat c = 0xDF then [0x53, 0x53]
      else if unat c = 0xFF then [0x178]
      else if unat c = 0xB5 then [0x39C]
      else [c])"

definition exUpperCase :: "js_string \<Rightarrow> js_string" where
  "exUpperCase s = concat (map upperUnit s)"

definition lowerUnit :: "code_unit \<Rightarrow> code_unit" where
  "lowerUnit c =
     (if (0x41 \<le> unat c \<and> unat c \<le> 0x5A) \<or> (0xC0 \<le> unat c \<and> unat c \<le> 0xDE \<and> unat c \<noteq> 0xD7)
      then of_nat (unat c + 0x20) else c)"

definition exLowerCase :: "js_string \<Rightarrow> js_string" where
  "exLowerCase s = map lowerUnit s"

section \<open>Action rows: \<open>AdvancedCollector.getActionRowsFromComponents\<close>\<close>

text \<open>
  A component carries its discord.js type tag and its custom id; a
  \<open>MessageActionRow\<close> is the list of the components added to it, in order.
\<close>

datatype component_type = ACTION_ROW | BUTTON | SELECT_MENU | TEXT_INPUT

record component =
  ctype :: component_type
  customId :: string

type_synonym action_row = "component list"

definition MAX_ACTION_ROWS :: nat where
  "MAX_ACTION_ROWS = 5"

text \<open>
  The first \<open>for\<close> loop: one row per select menu, for the first
  \<open>min(selectMenus.length, MAX_ACTION_ROWS)\<close> menus. It returns the rows and
  \<open>rowsUsed\<close>.
\<close>

function selectLoop ::
  "component list \<Rightarrow> nat \<Rightarrow> action_row list \<Rightarrow> nat \<Rightarrow> action_row list \<times> nat" where
  "selectLoop selectMenus i rows rowsUsed =
     (if i < min (length selectMenus) MAX_ACTION_ROWS
      then selectLoop selectMenus (i + 1) (rows @ [[selectMenus ! i]]) (rowsUsed + 1)
      else (rows, rowsUsed))"
  by pat_completeness auto
termination
  by (relation "measure (\<lambda>(ms, i, rows, used). min (length ms) MAX_ACTION_ROWS - i)") auto

declare selectLoop.simps [simp del]

text \<open>The inner loop fills one row with the buttons \<open>i, ..., i + 4\<close> that exist.\<close>

function fillRow :: "component list \<Rightarrow> nat \<Rightarrow> nat \<Rightarrow> action_row \<Rightarrow> action_row" where
  "fillRow buttons i j actionRow =
     (if j < 5 \<and> i + j < length buttons
      then fillRow buttons i (j + 1) (actionRow @ [buttons ! (i + j)])
      else actionRow)"
  by pat_completeness auto
termination
  by (relation "measure (\<lambda>(bs, i, j, row). 5 - j)") auto

declare fillRow.simps [simp del]

text \<open>
  The outer button loop steps \<open>i\<close> by 5 while
  \<open>i < min(buttons.length, 5 * (MAX_ACTION_ROWS - rowsUsed))\<close>; the bound is computed
  over the integers, as the source's subtraction is.
\<close>

function buttonLoop ::
  "component list \<Rightarrow> nat \<Rightarrow> nat \<Rightarrow> action_row list \<Rightarrow> action_row list" where
  "buttonLoop buttons rowsUsed i rows =
     (if int i < min (int (length buttons)) (5 * (int MAX_ACTION_ROWS - int rowsUsed))
      then buttonLoop buttons rowsUsed (i + 5) (rows @ [fillRow buttons i 0 []])
      else rows)"
  by pat_completeness auto
termination
  by (relation "measure (\<lambda>(bs, used, i, rows). length bs - i)") auto

declare buttonLoop.simps [simp del]

definition getActionRowsFromComponents :: "component list \<Rightarrow> action_row list" where
  "getActionRowsFromComponents options =
     (let selectMenus = filter (\<lambda>x. ctype x = SELECT_MENU) options;
          (rows, rowsUsed) = selectLoop selectMenus 0 [] 0;
          buttons = filter (\<lambda>x. ctype x = BUTTON) options
      in buttonLoop buttons rowsUsed 0 rows)"

section \<open>The dispatcher: \<open>slashCommandHandler\<close>\<close>

text \<open>
  The handler acts on its collaborators only: it replies to the interaction, it calls
  \<open>addToCooldown\<close> on the command found, and it calls the command's \<open>run\<close>. The
  model returns these calls in the order the handler makes them. The classes
  \<open>BaseCommand\<close>, \<open>Bot\<close> and the utility modules are not part of the sources at
  hand: what the handler reads from them (\<open>checkCooldownFor\<close>,
  \<open>hasPermissionToRun\<close>, \<open>commandInfo.guildOnly\<close>, the configuration, the registry
  \<open>Bot.NameCommands\<close>, \<open>TimeUtilities.formatDuration\<close>, \<open>StringUtil.codifyString\<close>,
  \<open>GeneralUtilities.generateBlankEmbed\<close> and the line break of
  \<open>StringBuilder.appendLine\<close>) is a parameter. Calls of the chat platform are taken to
  succeed.
\<close>

record user =
  user_id :: string
  username :: string

record 'm guild =
  guild_id :: string
  members_fetch :: "string \<Rightarrow> 'm"

record 'm command_interaction =
  interaction_user :: user
  interaction_commandName :: string
  interaction_guild :: "'m guild option"
  interaction_channel :: "string option"

record 'm command_context =
  ctx_user :: user
  ctx_guild :: "'m guild option"
  ctx_interaction :: "'m command_interaction"
  ctx_channel :: "string option"
  ctx_member :: "'m option"

record config =
  isProd :: bool
  botOwnerIds :: "string list"

record can_run_info =
  canRun :: bool
  hasAdmin :: bool
  missingUserPerms :: "string list"
  missingBotPerms :: "string list"
  reason :: "string option"

record 'm command =
  guildOnly :: bool
  checkCooldownFor :: "user \<Rightarrow> int"
  hasPermissionToRun :: "'m option \<Rightarrow> 'm guild option \<Rightarrow> can_run_info"

record embed_field =
  field_name :: string
  field_value :: string

record message_embed =
  embed_title :: "string option"
  embed_description :: "string option"
  embed_fields :: "embed_field list"

record reply_options =
  reply_content :: "string option"
  reply_ephemeral :: bool
  reply_embeds :: "message_embed list"

record utilities =
  formatDuration :: "int \<Rightarrow> bool \<Rightarrow> bool \<Rightarrow> string"
  codifyString :: "string \<Rightarrow> string"
  generateBlankEmbed :: "user \<Rightarrow> string \<Rightarrow> message_embed"
  lineBreak :: string

datatype 'm effect =
    is_Reply: Reply reply_options
  | is_AddToCooldown: AddToCooldown string user
  | is_Run: Run string "'m command_context"

text \<open>A string is truthy when it is neither \<open>undefined\<close>/\<open>null\<close> nor empty.\<close>

fun truthy_string :: "string option \<Rightarrow> bool" where
  "truthy_string None = False"
| "truthy_string (Some s) = (s \<noteq> [])"

text \<open>\<open>Array.prototype.join\<close> on an array of strings.\<close>

fun join :: "string \<Rightarrow> string list \<Rightarrow> string" where
  "join sep [] = []"
| "join sep [x] = x"
| "join sep (x # y # ys) = x @ sep @ join sep (y # ys)"

definition addField :: "string \<Rightarrow> string \<Rightarrow> message_embed \<Rightarrow> message_embed" where
  "addField n v e = e\<lparr>embed_fields := embed_fields e @ [\<lparr>field_name = n, field_value = v\<rparr>]\<rparr>"

text \<open>
  Lines 69 to 99 of the handler: the embed that reports the permissions missing, and
  the description built next to it in \<open>noPermSb\<close>. The pair threaded through is
  \<open>(noPermissionEmbed, noPermSb)\<close>.
\<close>

definition noPermissionReply :: "utilities \<Rightarrow> user \<Rightarrow> can_run_info \<Rightarrow> reply_options" where
  "noPermissionReply util u canRunInfo =
     (let noPermSb = ''You, or the bot, are missing permissions needed to run the command.'';
          noPermissionEmbed = (generateBlankEmbed util u ''RED'')\<lparr>embed_title := Some ''Missing Permissions.''\<rparr>;
          (noPermissionEmbed, noPermSb) =
            (if length (missingUserPerms canRunInfo) \<noteq> 0 then
               (addField ''Missing Member Permissions (Need ??? 1)''
                    (codifyString util (join '', '' (missingUserPerms canRunInfo)))
                  (addField ''Missing Member Permissions (Need ??? 1)''
                    (codifyString util (join '', '' (missingUserPerms canRunInfo)))
                    noPermissionEmbed),
                noPermSb @ lineBreak util
                  @ ''- You need to fulfill at least __one__ of the two missing member permissions.'')
             else (noPermissionEmbed, noPermSb));
          (noPermissionEmbed, noPermSb) =
            (if length (missingBotPerms canRunInfo) \<noteq> 0 then
               (addField ''Missing Bot Permissions (Need All)''
                    (codifyString util (join '', '' (missingBotPerms canRunInfo)))
                    noPermissionEmbed,
                noPermSb @ lineBreak util
                  @ ''- The bot needs every permission that is specified to run this command.'')
             else (noPermissionEmbed, noPermSb));
          (noPermissionEmbed, noPermSb) =
            (if length (embed_fields noPermissionEmbed) = 0 then
               (addField ''Unknown Error'' ''Something wrong occurred. Please try again later.''
                    noPermissionEmbed,
                noPermSb @ lineBreak util @ ''- Unknown error occurred. Please report this.'')
             else (noPermissionEmbed, noPermSb))
      in \<lparr>reply_content = None, reply_ephemeral = False,
          reply_embeds = [noPermissionEmbed\<lparr>embed_description := Some noPermSb\<rparr>]\<rparr>)"

definition slashCommandHandler ::
  "config \<Rightarrow> utilities \<Rightarrow> (string \<rightharpoonup> 'm command) \<Rightarrow> 'm command_interaction \<Rightarrow> 'm effect list" where
  "slashCommandHandler cfg util NameCommands interaction =
     (if \<not> isProd cfg \<and> user_id (interaction_user interaction) \<notin> set (botOwnerIds cfg) then
        [Reply \<lparr>reply_content =
                  Some ''The bot is currently in development mode, and cannot be used right now.'',
                reply_ephemeral = False, reply_embeds = []\<rparr>]
      else
        (case NameCommands (interaction_commandName interaction) of
          None \<Rightarrow> []
        | Some foundCommand \<Rightarrow>
            (let ctx = \<lparr>ctx_user = interaction_user interaction,
                        ctx_guild = interaction_guild interaction,
                        ctx_interaction = interaction,
                        ctx_channel = interaction_channel interaction,
                        ctx_member =
                          (case interaction_guild interaction of
                            None \<Rightarrow> None
                          | Some g \<Rightarrow> Some (members_fetch g (user_id (interaction_user interaction))))\<rparr>;
                 cooldownLeft = checkCooldownFor foundCommand (ctx_user ctx)
             in if cooldownLeft > 0 then
                  [Reply \<lparr>reply_content =
                            Some (''You are on cooldown for **`''
                                  @ formatDuration util cooldownLeft True False @ ''`**.''),
                          reply_ephemeral = True, reply_embeds = []\<rparr>]
                else if guildOnly foundCommand \<and> ctx_guild ctx = None then
                  [Reply \<lparr>reply_content = Some ''This command can only be used in a guild.'',
                          reply_ephemeral = True, reply_embeds = []\<rparr>]
                else
                  (let canRunInfo = hasPermissionToRun foundCommand (ctx_member ctx) (ctx_guild ctx);
                       cooldown =
                         (if user_id (ctx_user ctx) \<notin> set (botOwnerIds cfg) \<and> \<not> hasAdmin canRunInfo
                          then [AddToCooldown (interaction_commandName interaction) (ctx_user ctx)]
                          else [])
                   in if canRun canRunInfo then
                        cooldown @ [Run (interaction_commandName interaction) ctx]
                      else if truthy_string (reason canRunInfo) then
                        cooldown @ [Reply \<lparr>reply_content = reason canRunInfo,
                                           reply_ephemeral = True, reply_embeds = []\<rparr>]
                      else
                        cooldown @ [Reply (noPermissionReply util (ctx_user ctx) canRunInfo)]))))"

text \<open>The member the handler puts into the context: fetched from the guild, or \<open>null\<close>.\<close>

definition fetchedMember :: "'m command_interaction \<Rightarrow> 'm option" where
  "fetchedMember interaction =
     (case interaction_guild interaction of
        None \<Rightarrow> None
      | Some g \<Rightarrow> Some (members_fetch g (user_id (interaction_user interaction))))"

text \<open>
  The guards in front of the permission check, in the handler's order: the
  development-mode gate, the registry lookup, the cooldown check and the guild-only
  check.
\<close>

definition passesDevGate :: "config \<Rightarrow> 'm command_interaction \<Rightarrow> bool" where
  "passesDevGate cfg interaction =
     (\<not> (\<not> isProd cfg \<and> user_id (interaction_user interaction) \<notin> set (botOwnerIds cfg)))"

definition reachesPermissionCheck ::
  "config \<Rightarrow> (string \<rightharpoonup> 'm command) \<Rightarrow> 'm command_interaction \<Rightarrow> 'm command \<Rightarrow> bool" where
  "reachesPermissionCheck cfg NameCommands interaction foundCommand =
     (passesDevGate cfg interaction
      \<and> NameCommands (interaction_commandName interaction) = Some foundCommand
      \<and> \<not> checkCooldownFor foundCommand (interaction_user interaction) > 0
      \<and> \<not> (guildOnly foundCommand \<and> interaction_guild interaction = None))"

subsection \<open>Inputs used to evaluate the handler\<close>

definition exUtil :: utilities where
  "exUtil = \<lparr>formatDuration = (\<lambda>ms a b. ''some seconds''),
            codifyString = (\<lambda>s. ''<'' @ s @ ''>''),
            generateBlankEmbed =
              (\<lambda>u c. \<lparr>embed_title = None, embed_description = None, embed_fields = []\<rparr>),
            lineBreak = [CHR 0x0A]\<rparr>"

definition exUser :: user where
  "exUser = \<lparr>user_id = ''42'', username = ''student''\<rparr>"

definition exInteraction :: "string command_interaction" where
  "exInteraction = \<lparr>interaction_user = exUser, interaction_commandName = ''help'',
                    interaction_guild = None, interaction_channel = Some ''general''\<rparr>"

definition exCommand :: "int \<Rightarrow> can_run_info \<Rightarrow> string command" where
  "exCommand left info =
     \<lparr>guildOnly = False, checkCooldownFor = (\<lambda>u. left), hasPermissionToRun = (\<lambda>m g. info)\<rparr>"

definition exRegistry :: "string command \<Rightarrow> (string \<rightharpoonup> string command)" where
  "exRegistry c = [''help'' \<mapsto> c]"

definition devConfig :: config where
  "devConfig = \<lparr>isProd = False, botOwnerIds = [''1'']\<rparr>"

definition prodConfig :: config where
  "prodConfig = \<lparr>isProd = True, botOwnerIds = [''1'']\<rparr>"

section \<open>The collectors: \<open>AdvancedCollector\<close>\<close>

text \<open>
  The collectors wait on events of the chat client. The model makes the event loop
  explicit. An event is the arrival of a message in the target channel or of a
  component interaction, the end of one of the two discord.js collectors for a
  reason the library gives (\<open>time\<close> when the duration is over), or the resumption
  of code that is suspended at an \<open>await\<close>. Code runs from its start, or from the \<open>await\<close> it was suspended at,
  to its next \<open>await\<close> or to its end without interruption, as JavaScript runs it; a
  run of a collector is the fold of its step function over the list of events, so
  every interleaving of events and resumptions is a list.

  Of discord.js (version 13, \<open>Collector.handleCollect\<close>, \<open>stop\<close> and \<open>checkEnd\<close>) the
  model takes this. A collector that has ended is detached from the client: what
  arrives afterwards does not reach it. What arrives at a running collector is
  handled in two stretches: the collector first awaits its \<open>collect\<close> method and its
  filter; when it resumes it emits \<open>collect\<close> to the listener if the filter accepts,
  without asking whether the collector has been stopped in the meantime, and then
  checks its limits. \<open>stop(reason)\<close> on a running collector emits \<open>end\<close> with that
  reason, and does nothing on a collector that has ended. A component collector
  created with \<open>max: 1\<close> stops with reason \<open>limit\<close> in the limit check that follows
  its first \<open>collect\<close>. \<open>awaitMessageComponent\<close> resolves to the first interaction
  the filter accepts and rejects when the time is over. A promise settles once: a
  later call of \<open>resolve\<close> leaves its value. Deleting or editing a message and
  acknowledging an interaction are recorded as effects and taken to succeed.
\<close>

record message =
  message_author :: string
  message_content :: js_string

record component_interaction =
  component_user :: string
  component_customId :: string
  component_message :: string

record bot_message =
  bot_message_id :: string
  deletable :: bool
  editable :: bool

datatype error = Error string

record collector_options =
  targetAuthor :: string
  duration :: nat
  msgOptions :: "string option"
  oldMsg :: "bot_message option"
  deleteBaseMsgAfterComplete :: bool
  acknowledgeImmediately :: bool
  clearInteractionsAfterComplete :: bool
  cancelFlag :: "js_string option"
  deleteResponseMessage :: bool

text \<open>
  What a collector's promise resolves to: a value of the extractor's type \<open>T\<close>, a
  component interaction, or \<open>null\<close>.
\<close>

datatype 'a outcome = Matched 'a | Clicked component_interaction | NoResult

datatype collector_effect =
    DeleteResponse message
  | DeferUpdate component_interaction
  | DeleteBotMsg bot_message
  | ClearComponents bot_message


text \<open>
  The points of suspension: a collector awaiting its filter for a message or for an
  interaction, and the listeners at \<open>await c.delete()\<close>, \<open>await func(c)\<close> and
  \<open>await i.deferUpdate()\<close>.
\<close>

datatype task =
    AwaitFilter message
  | AwaitDelete message
  | AwaitFunc message
  | AwaitInteractionFilter component_interaction
  | AwaitDefer component_interaction

datatype event =
    MessageCreate message
  | InteractionCreate component_interaction
  | MessageCollectorEnd string
  | InteractionCollectorEnd string
  | Resume task

text \<open>
  The state of a wait: whether the two collectors have ended, the flag of
  \<open>acknowledgeDeletion\<close>, the values the returned promise has been resolved with, in
  the order of the calls, the suspended code, and the effects on messages and
  interactions so far.
\<close>

record 'a collector_state =
  msgEnded :: bool
  intEnded :: bool
  hasCalled :: bool
  resolved :: "'a outcome list"
  pending :: "task list"
  effects :: "collector_effect list"

definition initialState :: "'a collector_state" where
  "initialState = \<lparr>msgEnded = False, intEnded = False, hasCalled = False, resolved = [],
                    pending = [], effects = []\<rparr>"

text \<open>
  A call of \<open>resolve\<close>. The promise is pending until the first call and holds the value
  of the first call from then on.
\<close>

definition resolve :: "'a outcome \<Rightarrow> 'a collector_state \<Rightarrow> 'a collector_state" where
  "resolve v s = s\<lparr>resolved := resolved s @ [v]\<rparr>"

definition promise :: "'a collector_state \<Rightarrow> 'a outcome option" where
  "promise s = (case resolved s of [] \<Rightarrow> None | v # vs \<Rightarrow> Some v)"

definition perform :: "collector_effect \<Rightarrow> 'a collector_state \<Rightarrow> 'a collector_state" where
  "perform e s = s\<lparr>effects := effects s @ [e]\<rparr>"

definition suspend :: "task \<Rightarrow> 'a collector_state \<Rightarrow> 'a collector_state" where
  "suspend t s = s\<lparr>pending := pending s @ [t]\<rparr>"

text \<open>
  Modelled from the spec: \<open>GeneralUtilities.tryExecuteAsync\<close> is not part of the sources
  at hand. The spec says that any error thrown while sending the initial message is
  swallowed, yielding a null session; the argument is the outcome of the function
  passed in.
\<close>

definition tryExecuteAsync :: "error + 'a \<Rightarrow> 'a option" where
  "tryExecuteAsync r = (case r of Inl e \<Rightarrow> None | Inr v \<Rightarrow> Some v)"

text \<open>\<open>sendResult\<close> is the outcome of \<open>options.targetChannel.send(options.msgOptions)\<close>.\<close>

definition initSendCollectorMessage ::
  "collector_options \<Rightarrow> error + bot_message \<Rightarrow> bot_message option" where
  "initSendCollectorMessage options sendResult =
     (if msgOptions options \<noteq> None then tryExecuteAsync sendResult
      else if oldMsg options \<noteq> None then oldMsg options
      else None)"

text \<open>
  The test \<open>cancelFlag && cancelFlag.toLowerCase() === c.content.toLowerCase()\<close>, with
  the built-in \<open>toLowerCase\<close> as a parameter.
\<close>

definition cancels :: "(js_string \<Rightarrow> js_string) \<Rightarrow> js_string option \<Rightarrow> message \<Rightarrow> bool" where
  "cancels toLowerCase flag c =
     (case flag of
        None \<Rightarrow> False
      | Some f \<Rightarrow> f \<noteq> [] \<and> toLowerCase f = toLowerCase (message_content c))"

subsection \<open>\<open>startNormalCollector\<close>\<close>

text \<open>The \<open>end\<close> listener of the message collector, and the collector's \<open>stop\<close>.\<close>

definition normalEnd ::
  "collector_options \<Rightarrow> bot_message option \<Rightarrow> string \<Rightarrow> 'a collector_state \<Rightarrow> 'a collector_state" where
  "normalEnd options botMsg r s =
     (let s = (case botMsg of
                 None \<Rightarrow> s
               | Some b \<Rightarrow>
                   if deleteBaseMsgAfterComplete options \<and> deletable b
                   then perform (DeleteBotMsg b) s else s)
      in if r = ''time'' then resolve NoResult s else s)"

definition normalStop ::
  "collector_options \<Rightarrow> bot_message option \<Rightarrow> string \<Rightarrow> 'a collector_state \<Rightarrow> 'a collector_state" where
  "normalStop options botMsg r s =
     (if msgEnded s then s else normalEnd options botMsg r (s\<lparr>msgEnded := True\<rparr>))"

text \<open>
  The \<open>collect\<close> listener in its three stretches: up to \<open>await c.delete()\<close>, from there
  to \<open>await func(c)\<close>, and the rest. \<open>truthy\<close> is JavaScript's truthiness on the
  extractor's values: \<open>attempt ? attempt : null\<close> and \<open>if (!info) return\<close>.
\<close>

definition normalAfterFunc ::
  "collector_options \<Rightarrow> (message \<Rightarrow> 'a option) \<Rightarrow> ('a \<Rightarrow> bool) \<Rightarrow> bot_message option
     \<Rightarrow> message \<Rightarrow> 'a collector_state \<Rightarrow> 'a collector_state" where
  "normalAfterFunc options func truthy botMsg c s =
     (case func c of
        None \<Rightarrow> s
      | Some attempt \<Rightarrow>
          if truthy attempt
          then resolve (Matched attempt) (normalStop options botMsg ''user'' s)
          else s)"

definition normalAfterDelete ::
  "(js_string \<Rightarrow> js_string) \<Rightarrow> collector_options \<Rightarrow> message
     \<Rightarrow> 'a collector_state \<Rightarrow> 'a collector_state" where
  "normalAfterDelete toLowerCase options c s =
     (if cancels toLowerCase (cancelFlag options) c then resolve NoResult s
      else suspend (AwaitFunc c) s)"

definition normalCollect ::
  "(js_string \<Rightarrow> js_string) \<Rightarrow> collector_options \<Rightarrow> message
     \<Rightarrow> 'a collector_state \<Rightarrow> 'a collector_state" where
  "normalCollect toLowerCase options c s =
     (if deleteResponseMessage options
      then suspend (AwaitDelete c) (perform (DeleteResponse c) s)
      else normalAfterDelete toLowerCase options c s)"

text \<open>
  One event of the text-only wait. The filter of the message collector is
  \<open>m.author.id === options.targetAuthor.id\<close>.
\<close>

definition normalStep ::
  "(js_string \<Rightarrow> js_string) \<Rightarrow> collector_options \<Rightarrow> (message \<Rightarrow> 'a option) \<Rightarrow> ('a \<Rightarrow> bool)
     \<Rightarrow> bot_message option \<Rightarrow> 'a collector_state \<Rightarrow> event \<Rightarrow> 'a collector_state" where
  "normalStep toLowerCase options func truthy botMsg s e =
     (case e of
        MessageCreate c \<Rightarrow> if \<not> msgEnded s then suspend (AwaitFilter c) s else s
      | MessageCollectorEnd r \<Rightarrow> normalStop options botMsg r s
      | Resume t \<Rightarrow>
          if t \<in> set (pending s) then
            (case t of
               AwaitFilter c \<Rightarrow>
                 if message_author c = targetAuthor options
                 then normalCollect toLowerCase options c (s\<lparr>pending := remove1 t (pending s)\<rparr>)
                 else s\<lparr>pending := remove1 t (pending s)\<rparr>
             | AwaitDelete c \<Rightarrow>
                 normalAfterDelete toLowerCase options c (s\<lparr>pending := remove1 t (pending s)\<rparr>)
             | AwaitFunc c \<Rightarrow>
                 normalAfterFunc options func truthy botMsg c (s\<lparr>pending := remove1 t (pending s)\<rparr>)
             | AwaitInteractionFilter i \<Rightarrow> s
             | AwaitDefer i \<Rightarrow> s)
          else s
      | InteractionCreate i \<Rightarrow> s
      | InteractionCollectorEnd r \<Rightarrow> s)"

text \<open>
  The state of the promise that \<open>startNormalCollector\<close> returns, after the events given.
\<close>

definition startNormalCollector ::
  "(js_string \<Rightarrow> js_string) \<Rightarrow> collector_options \<Rightarrow> (message \<Rightarrow> 'a option) \<Rightarrow> ('a \<Rightarrow> bool)
     \<Rightarrow> error + bot_message \<Rightarrow> event list \<Rightarrow> 'a collector_state" where
  "startNormalCollector toLowerCase options func truthy sendResult events =
     (let botMsg = initSendCollectorMessage options sendResult
      in foldl (normalStep toLowerCase options func truthy botMsg) initialState events)"

subsection \<open>\<open>startDoubleCollector\<close>\<close>

text \<open>
  What \<open>acknowledgeDeletion\<close> does to the bot message once it is past its guard: it
  deletes the message, or clears its components, or does nothing.
\<close>

definition cleanupEffects :: "collector_options \<Rightarrow> bot_message \<Rightarrow> collector_effect list" where
  "cleanupEffects options botMsg =
     (if deleteBaseMsgAfterComplete options \<and> deletable botMsg then [DeleteBotMsg botMsg]
      else if clearInteractionsAfterComplete options \<and> editable botMsg
      then [ClearComponents botMsg]
      else [])"

definition acknowledgeDeletion ::
  "collector_options \<Rightarrow> bot_message \<Rightarrow> string \<Rightarrow> 'a collector_state \<Rightarrow> 'a collector_state" where
  "acknowledgeDeletion options botMsg r s =
     (if hasCalled s then s
      else
        (let s = s\<lparr>hasCalled := True\<rparr>;
             s = s\<lparr>effects := effects s @ cleanupEffects options botMsg\<rparr>
         in if r = ''time'' then resolve NoResult s else s))"

text \<open>\<open>msgCollector.stop\<close> and \<open>interactionCollector.stop\<close>, with their \<open>end\<close> listeners.\<close>

definition stopMsgCollector ::
  "collector_options \<Rightarrow> bot_message \<Rightarrow> string \<Rightarrow> 'a collector_state \<Rightarrow> 'a collector_state" where
  "stopMsgCollector options botMsg r s =
     (if msgEnded s then s else acknowledgeDeletion options botMsg r (s\<lparr>msgEnded := True\<rparr>))"

definition stopInteractionCollector ::
  "collector_options \<Rightarrow> bot_message \<Rightarrow> string \<Rightarrow> 'a collector_state \<Rightarrow> 'a collector_state" where
  "stopInteractionCollector options botMsg r s =
     (if intEnded s then s else acknowledgeDeletion options botMsg r (s\<lparr>intEnded := True\<rparr>))"

text \<open>
  The message listener in its three stretches. The extractor's result \<open>undefined\<close> is
  \<open>None\<close>: \<open>attempt ?? null\<close> and \<open>if (info === null) return\<close>.
\<close>

definition doubleAfterFunc ::
  "collector_options \<Rightarrow> (message \<Rightarrow> 'a option) \<Rightarrow> bot_message
     \<Rightarrow> message \<Rightarrow> 'a collector_state \<Rightarrow> 'a collector_state" where
  "doubleAfterFunc options func botMsg c s =
     (case func c of
        None \<Rightarrow> s
      | Some info \<Rightarrow>
          stopMsgCollector options botMsg ''user''
            (stopInteractionCollector options botMsg ''user'' (resolve (Matched info) s)))"

definition doubleAfterDelete ::
  "(js_string \<Rightarrow> js_string) \<Rightarrow> collector_options \<Rightarrow> bot_message \<Rightarrow> message
     \<Rightarrow> 'a collector_state \<Rightarrow> 'a collector_state" where
  "doubleAfterDelete toLowerCase options botMsg c s =
     (if cancels toLowerCase (cancelFlag options) c
      then resolve NoResult (stopInteractionCollector options botMsg ''user'' s)
      else suspend (AwaitFunc c) s)"

definition doubleMessageCollect ::
  "(js_string \<Rightarrow> js_string) \<Rightarrow> collector_options \<Rightarrow> bot_message \<Rightarrow> message
     \<Rightarrow> 'a collector_state \<Rightarrow> 'a collector_state" where
  "doubleMessageCollect toLowerCase options botMsg c s =
     (if deleteResponseMessage options
      then suspend (AwaitDelete c) (perform (DeleteResponse c) s)
      else doubleAfterDelete toLowerCase options botMsg c s)"

text \<open>The interaction listener in its two stretches.\<close>

definition doubleAfterDefer ::
  "collector_options \<Rightarrow> bot_message \<Rightarrow> component_interaction
     \<Rightarrow> 'a collector_state \<Rightarrow> 'a collector_state" where
  "doubleAfterDefer options botMsg i s =
     stopMsgCollector options botMsg ''user'' (resolve (Clicked i) s)"

definition doubleInteractionCollect ::
  "collector_options \<Rightarrow> bot_message \<Rightarrow> component_interaction
     \<Rightarrow> 'a collector_state \<Rightarrow> 'a collector_state" where
  "doubleInteractionCollect options botMsg i s =
     (if acknowledgeImmediately options
      then suspend (AwaitDefer i) (perform (DeferUpdate i) s)
      else doubleAfterDefer options botMsg i s)"

text \<open>
  One event of the combined wait. The component collector is created on the bot
  message, so it takes interactions with components of that message only; its
  filter is \<open>i.user.id === options.targetAuthor.id\<close>. With \<open>max: 1\<close> the limit check
  that follows an emitted \<open>collect\<close> stops it with reason \<open>limit\<close>; before the first
  \<open>collect\<close> the limit check does nothing, and after it the collector has ended.
\<close>

definition doubleStep ::
  "(js_string \<Rightarrow> js_string) \<Rightarrow> collector_options \<Rightarrow> (message \<Rightarrow> 'a option) \<Rightarrow> bot_message
     \<Rightarrow> 'a collector_state \<Rightarrow> event \<Rightarrow> 'a collector_state" where
  "doubleStep toLowerCase options func botMsg s e =
     (case e of
        MessageCreate c \<Rightarrow> if \<not> msgEnded s then suspend (AwaitFilter c) s else s
      | InteractionCreate i \<Rightarrow>
          if \<not> intEnded s then suspend (AwaitInteractionFilter i) s else s
      | MessageCollectorEnd r \<Rightarrow> stopMsgCollector options botMsg r s
      | InteractionCollectorEnd r \<Rightarrow> stopInteractionCollector options botMsg r s
      | Resume t \<Rightarrow>
          if t \<in> set (pending s) then
            (case t of
               AwaitFilter c \<Rightarrow>
                 if message_author c = targetAuthor options
                 then doubleMessageCollect toLowerCase options botMsg c
                        (s\<lparr>pending := remove1 t (pending s)\<rparr>)
                 else s\<lparr>pending := remove1 t (pending s)\<rparr>
             | AwaitDelete c \<Rightarrow>
                 doubleAfterDelete toLowerCase options botMsg c
                   (s\<lparr>pending := remove1 t (pending s)\<rparr>)
             | AwaitFunc c \<Rightarrow>
                 doubleAfterFunc options func botMsg c (s\<lparr>pending := remove1 t (pending s)\<rparr>)
             | AwaitInteractionFilter i \<Rightarrow>
                 if component_message i = bot_message_id botMsg
                    \<and> component_user i = targetAuthor options
                 then stopInteractionCollector options botMsg ''limit''
                        (doubleInteractionCollect options botMsg i
                          (s\<lparr>pending := remove1 t (pending s)\<rparr>))
                 else s\<lparr>pending := remove1 t (pending s)\<rparr>
             | AwaitDefer i \<Rightarrow>
                 doubleAfterDefer options botMsg i (s\<lparr>pending := remove1 t (pending s)\<rparr>))
          else s)"

definition doubleRun ::
  "(js_string \<Rightarrow> js_string) \<Rightarrow> collector_options \<Rightarrow> (message \<Rightarrow> 'a option) \<Rightarrow> bot_message
     \<Rightarrow> 'a collector_state \<Rightarrow> event list \<Rightarrow> 'a collector_state" where
  "doubleRun toLowerCase options func botMsg s events =
     foldl (doubleStep toLowerCase options func botMsg) s events"

text \<open>
  The state of the promise that \<open>startDoubleCollector\<close> returns, after the events
  given. Without a bot message the function returns \<open>null\<close> at once and creates no
  collector.
\<close>

definition startDoubleCollector ::
  "(js_string \<Rightarrow> js_string) \<Rightarrow> collector_options \<Rightarrow> (message \<Rightarrow> 'a option)
     \<Rightarrow> error + bot_message \<Rightarrow> event list \<Rightarrow> 'a collector_state" where
  "startDoubleCollector toLowerCase options func sendResult events =
     (case initSendCollectorMessage options sendResult of
        None \<Rightarrow> initialState\<lparr>resolved := [NoResult]\<rparr>
      | Some botMsg \<Rightarrow> doubleRun toLowerCase options func botMsg initialState events)"













subsection \<open>The component waits\<close>

definition awaitMessageComponent ::
  "(component_interaction \<Rightarrow> bool) \<Rightarrow> component_interaction list
     \<Rightarrow> error + component_interaction" where
  \<comment> \<open>\<open>arriving\<close> are the interactions that arrive within the duration, in order\<close>
  "awaitMessageComponent flt arriving =
     (case find flt arriving of None \<Rightarrow> Inl (Error ''time'') | Some i \<Rightarrow> Inr i)"

definition startsWith :: "string \<Rightarrow> string \<Rightarrow> bool" where
  "startsWith s p = (take (length p) s = p)"

definition startInteractionEphemeralCollector ::
  "collector_options \<Rightarrow> string \<Rightarrow> component_interaction list
     \<Rightarrow> component_interaction option \<times> collector_effect list" where
  "startInteractionEphemeralCollector options uniqueIdentifier arriving =
     (case awaitMessageComponent
             (\<lambda>i. component_user i = targetAuthor options
                  \<and> startsWith (component_customId i) uniqueIdentifier) arriving of
        Inl e \<Rightarrow> (None, [])
      | Inr i \<Rightarrow> (Some i, if acknowledgeImmediately options then [DeferUpdate i] else []))"

definition startInteractionCollector ::
  "collector_options \<Rightarrow> error + bot_message \<Rightarrow> component_interaction list
     \<Rightarrow> component_interaction option \<times> collector_effect list" where
  "startInteractionCollector options sendResult arriving =
     (case initSendCollectorMessage options sendResult of
        None \<Rightarrow> (None, [])
      | Some botMsg \<Rightarrow>
          (let (returnInteraction, acknowledged) =
                 (case awaitMessageComponent
                         (\<lambda>i. component_message i = bot_message_id botMsg
                              \<and> component_user i = targetAuthor options) arriving of
                    Inl e \<Rightarrow> (None, [])
                  | Inr i \<Rightarrow>
                      (Some i, if acknowledgeImmediately options then [DeferUpdate i] else []));
               finally =
                 (if deleteBaseMsgAfterComplete options then [DeleteBotMsg botMsg]
                  else if clearInteractionsAfterComplete options \<and> editable botMsg
                  then [ClearComponents botMsg]
                  else [])
           in (returnInteraction, acknowledged @ finally)))"

subsection \<open>Inputs used to evaluate the collectors\<close>

definition exOptions :: collector_options where
  "exOptions = \<lparr>targetAuthor = ''42'', duration = 60000, msgOptions = Some ''Which course?'',
                oldMsg = None, deleteBaseMsgAfterComplete = True,
                acknowledgeImmediately = True, clearInteractionsAfterComplete = False,
                cancelFlag = Some (js ''cancel''), deleteResponseMessage = True\<rparr>"

definition exBotMsg :: bot_message where
  "exBotMsg = \<lparr>bot_message_id = ''900'', deletable = True, editable = True\<rparr>"

definition exMessage :: "js_string \<Rightarrow> message" where
  "exMessage text = \<lparr>message_author = ''42'', message_content = text\<rparr>"

definition exClick :: component_interaction where
  "exClick = \<lparr>component_user = ''42'', component_customId = ''yes'', component_message = ''900''\<rparr>"

definition exFunc :: "message \<Rightarrow> js_string option" where
  \<comment> \<open>an extractor that accepts every message and yields its text\<close>
  "exFunc c = Some (message_content c)"

definition exTruthy :: "js_string \<Rightarrow> bool" where
  \<comment> \<open>a string is truthy when it is not empty\<close>
  "exTruthy v = (v \<noteq> [])"

section \<open>Course subject codes: normal form of the result\<close>

lemma unat_SPACE: "unat SPACE = 0x20"
  by (simp add: SPACE_def)

lemma SPACE_iff: "c = SPACE \<longleftrightarrow> unat c = 0x20"
  by (simp add: word_unat_eq_iff unat_SPACE)

lemma digit_not_ws: "is_digit c \<Longrightarrow> \<not> is_ws c"
  by (auto simp: is_digit_def is_ws_def)

lemma space_is_ws: "is_ws SPACE"
  by (simp add: is_ws_def unat_SPACE)

lemma space_not_digit: "\<not> is_digit SPACE"
  by (simp add: is_digit_def unat_SPACE)

lemma subjLoop_eq:
  "i \<le> length code \<Longrightarrow>
   subjLoop code i s =
     (i + length (takeWhile (\<lambda>c. \<not> is_digit c) (drop i code)),
      s @ filter (\<lambda>c. c \<noteq> SPACE) (takeWhile (\<lambda>c. \<not> is_digit c) (drop i code)))"
proof (induction code i s rule: subjLoop.induct)
  case (1 code i s)
  show ?case
  proof (cases "i < length code")
    case False
    then show ?thesis by (simp add: subjLoop.simps [of code i s])
  next
    case True
    then have d: "drop i code = code ! i # drop (Suc i) code"
      by (simp add: Cons_nth_drop_Suc)
    from True have le: "Suc i \<le> length code" by simp
    show ?thesis
      using True "1.IH" le
      by (simp add: subjLoop.simps [of code i s] d)
  qed
qed

lemma restLoop_eq: "restLoop code i s = s @ drop i code"
proof (induction code i s rule: restLoop.induct)
  case (1 code i s)
  show ?case
  proof (cases "i < length code")
    case False
    then show ?thesis by (simp add: restLoop.simps [of code i s])
  next
    case True
    then have d: "drop i code = code ! i # drop (Suc i) code"
      by (simp add: Cons_nth_drop_Suc)
    show ?thesis using True "1.IH" by (simp add: restLoop.simps [of code i s] d)
  qed
qed

lemma parse_eq:
  "parseCourseSubjCode up code =
     trim (up (filter (\<lambda>c. c \<noteq> SPACE) (takeWhile (\<lambda>c. \<not> is_digit c) code)
        @ SPACE # dropWhile (\<lambda>c. \<not> is_digit c) code))"
  by (simp add: parseCourseSubjCode_def subjLoop_eq restLoop_eq dropWhile_eq_drop)

subsection \<open>Trimming\<close>

lemma trimStart_fix: "s = [] \<or> \<not> is_ws (hd s) \<Longrightarrow> trimStart s = s"
  by (cases s) (auto simp: trimStart_def)

lemma trimEnd_fix: "s = [] \<or> \<not> is_ws (last s) \<Longrightarrow> trimEnd s = s"
  by (cases s rule: rev_cases) (auto simp: trimEnd_def)

lemma trimStart_hd: "trimStart s \<noteq> [] \<Longrightarrow> \<not> is_ws (hd (trimStart s))"
  unfolding trimStart_def by (rule hd_dropWhile)

lemma trimEnd_last: "trimEnd s \<noteq> [] \<Longrightarrow> \<not> is_ws (last (trimEnd s))"
  unfolding trimEnd_def using hd_dropWhile [of is_ws "rev s"] by (simp add: last_rev)

lemma trimEnd_prefix: "s = trimEnd s @ rev (takeWhile is_ws (rev s))"
proof -
  have "rev (dropWhile is_ws (rev s)) @ rev (takeWhile is_ws (rev s)) = s"
    by (simp only: rev_append [symmetric] takeWhile_dropWhile_id rev_rev_ident)
  then show ?thesis by (simp only: trimEnd_def)
qed

lemma trimEnd_hd: "trimEnd s \<noteq> [] \<Longrightarrow> hd (trimEnd s) = hd s"
  using trimEnd_prefix [of s] by (metis hd_append2)

lemma trim_hd_last:
  "trim s \<noteq> [] \<Longrightarrow> \<not> is_ws (hd (trim s)) \<and> \<not> is_ws (last (trim s))"
proof -
  assume ne: "trim s \<noteq> []"
  then have ne': "trimStart s \<noteq> []" by (auto simp: trim_def trimEnd_def)
  have "hd (trim s) = hd (trimStart s)" using ne by (simp add: trim_def trimEnd_hd)
  with trimStart_hd [OF ne'] trimEnd_last [of "trimStart s"] ne
  show ?thesis by (simp add: trim_def)
qed

lemma trim_fix: "s = [] \<or> (\<not> is_ws (hd s) \<and> \<not> is_ws (last s)) \<Longrightarrow> trim s = s"
  by (auto simp: trim_def trimStart_fix trimEnd_fix)

lemma trim_idem: "trim (trim s) = trim s"
  using trim_hd_last [of s] by (intro trim_fix) blast

lemma trimEnd_idem: "trimEnd (trimEnd s) = trimEnd s"
  using trimEnd_last [of s] by (intro trimEnd_fix) blast

lemma trimEnd_keep: "\<not> is_ws d \<Longrightarrow> trimEnd (A @ d # T) = A @ d # trimEnd T"
  by (simp add: trimEnd_def dropWhile_append)

lemma trim_snoc_space: "trim (xs @ [SPACE]) = trim xs"
proof (cases "\<forall>c\<in>set xs. is_ws c")
  case True
  then have e: "dropWhile is_ws xs = []" by simp
  show ?thesis
    by (simp add: trim_def trimStart_def trimEnd_def dropWhile_append space_is_ws e)
next
  case False
  then show ?thesis
    by (auto simp: trim_def trimStart_def trimEnd_def dropWhile_append space_is_ws)
qed

lemma set_trim: "set (trim s) \<subseteq> set s"
proof -
  have "set (trimEnd (trimStart s)) \<subseteq> set (trimStart s)"
    unfolding trimEnd_def using set_dropWhileD [of _ is_ws "rev (trimStart s)"] by auto
  moreover have "set (trimStart s) \<subseteq> set s"
    unfolding trimStart_def using set_dropWhileD [of _ is_ws s] by auto
  ultimately show ?thesis by (simp add: trim_def)
qed

lemma trim_normal_form:
  assumes "is_digit d"
  shows "trim (A @ SPACE # d # T) = lead A @ d # trimEnd T"
proof -
  have nws: "\<not> is_ws d" using assms by (rule digit_not_ws)
  have "trimStart (A @ SPACE # d # T) = lead A @ d # T"
    using nws by (simp add: trimStart_def lead_def dropWhile_append space_is_ws)
  then show ?thesis using nws by (simp add: trim_def trimEnd_keep)
qed

lemma lead_no_digit:
  assumes "\<forall>c\<in>set A. \<not> is_digit c"
  shows "\<forall>c\<in>set (lead A). \<not> is_digit c"
  using assms set_dropWhileD [of _ is_ws A]
  by (auto simp: lead_def trimStart_def space_not_digit)

lemma filter_lead:
  assumes "\<forall>c\<in>set A. c \<noteq> SPACE"
  shows "filter (\<lambda>c. c \<noteq> SPACE) (lead A) = (if \<forall>c\<in>set A. is_ws c then [] else trimStart A)"
proof -
  have "\<forall>c\<in>set (trimStart A). c \<noteq> SPACE"
    using assms set_dropWhileD [of _ is_ws A] by (auto simp: trimStart_def)
  then have "filter (\<lambda>c. c \<noteq> SPACE) (trimStart A) = trimStart A"
    by (auto intro: filter_True)
  then show ?thesis by (simp add: lead_def)
qed

lemma lead_trimStart:
  assumes "\<not> (\<forall>c\<in>set A. is_ws c)"
  shows "lead (trimStart A) = lead A"
proof -
  have ne: "trimStart A \<noteq> []" using assms by (auto simp: trimStart_def)
  then have h: "\<not> is_ws (hd (trimStart A))" by (rule trimStart_hd)
  then have "\<not> (\<forall>c\<in>set (trimStart A). is_ws c)" using ne hd_in_set by blast
  moreover have "trimStart (trimStart A) = trimStart A" using h by (simp add: trimStart_fix)
  ultimately show ?thesis using assms by (simp add: lead_def)
qed

subsection \<open>Consequences of the laws of upper-casing\<close>

lemma up_idem: "upperCaseLaws up \<Longrightarrow> up (up xs) = up xs"
  by (simp add: upperCaseLaws_def)

lemma up_Nil: "upperCaseLaws up \<Longrightarrow> up [] = []"
  by (simp add: upperCaseLaws_def)

lemma up_split:
  "upperCaseLaws up \<Longrightarrow> is_digit c \<or> c = SPACE \<Longrightarrow> up (xs @ c # ys) = up xs @ c # up ys"
  unfolding upperCaseLaws_def by blast

lemma up_separator:
  "upperCaseLaws up \<Longrightarrow> c \<in> set (up xs) \<Longrightarrow> is_digit c \<or> c = SPACE \<Longrightarrow> c \<in> set xs"
  unfolding upperCaseLaws_def by blast

lemma up_trimStart: "upperCaseLaws up \<Longrightarrow> up (trimStart xs) = trimStart (up xs)"
  by (simp add: upperCaseLaws_def)

lemma up_trimEnd: "upperCaseLaws up \<Longrightarrow> up (trimEnd xs) = trimEnd (up xs)"
  by (simp add: upperCaseLaws_def)

lemma up_trim: "upperCaseLaws up \<Longrightarrow> up (trim xs) = trim (up xs)"
  by (simp add: trim_def up_trimStart up_trimEnd)

lemma up_Cons:
  assumes "upperCaseLaws up" "is_digit c \<or> c = SPACE"
  shows "up (c # ys) = c # up ys"
  using up_split [OF assms, of "[]" ys] up_Nil [OF assms(1)] by simp

lemma up_snoc_space:
  assumes "upperCaseLaws up"
  shows "up (xs @ [SPACE]) = up xs @ [SPACE]"
  using up_split [OF assms, of SPACE xs "[]"] up_Nil [OF assms] by simp

lemma up_pre_chars:
  assumes "upperCaseLaws up" "\<forall>c\<in>set xs. \<not> is_digit c \<and> c \<noteq> SPACE"
  shows "\<forall>c\<in>set (up xs). \<not> is_digit c \<and> c \<noteq> SPACE"
  using up_separator [OF assms(1)] assms(2) by blast

lemma pre_chars:
  "\<forall>c\<in>set (filter (\<lambda>c. c \<noteq> SPACE) (takeWhile (\<lambda>c. \<not> is_digit c) s)). \<not> is_digit c \<and> c \<noteq> SPACE"
  by (auto dest: set_takeWhileD)

lemma parse_upper:
  "upperCaseLaws up \<Longrightarrow> up (parseCourseSubjCode up s) = parseCourseSubjCode up s"
  by (simp add: parse_eq up_trim up_idem)

lemma parse_trimmed:
  "parseCourseSubjCode up s \<noteq> [] \<Longrightarrow>
   \<not> is_ws (hd (parseCourseSubjCode up s)) \<and> \<not> is_ws (last (parseCourseSubjCode up s))"
  unfolding parse_eq by (rule trim_hd_last)

lemma parse_no_digit:
  assumes "upperCaseLaws up" "\<forall>c\<in>set s. \<not> is_digit c"
  shows "parseCourseSubjCode up s = trim (up (filter (\<lambda>c. c \<noteq> SPACE) s))"
proof -
  have t: "takeWhile (\<lambda>c. \<not> is_digit c) s = s" and d: "dropWhile (\<lambda>c. \<not> is_digit c) s = []"
    using assms(2) by simp_all
  have "parseCourseSubjCode up s = trim (up (filter (\<lambda>c. c \<noteq> SPACE) s) @ [SPACE])"
    unfolding parse_eq t d up_snoc_space [OF assms(1)] ..
  then show ?thesis by (simp only: trim_snoc_space)
qed

lemma parse_no_digit_chars:
  assumes "upperCaseLaws up" "\<forall>c\<in>set s. \<not> is_digit c"
  shows "\<forall>c\<in>set (parseCourseSubjCode up s). \<not> is_digit c \<and> c \<noteq> SPACE"
proof -
  have "\<forall>c\<in>set (filter (\<lambda>c. c \<noteq> SPACE) s). \<not> is_digit c \<and> c \<noteq> SPACE"
    using assms(2) by simp
  then have "\<forall>c\<in>set (up (filter (\<lambda>c. c \<noteq> SPACE) s)). \<not> is_digit c \<and> c \<noteq> SPACE"
    by (rule up_pre_chars [OF assms(1)])
  then show ?thesis
    unfolding parse_no_digit [OF assms] using set_trim by blast
qed

lemma parse_idem_no_digit:
  assumes "upperCaseLaws up" "\<forall>c\<in>set s. \<not> is_digit c"
  shows "parseCourseSubjCode up (parseCourseSubjCode up s) = parseCourseSubjCode up s"
proof -
  let ?r = "parseCourseSubjCode up s"
  have ch: "\<forall>c\<in>set ?r. \<not> is_digit c \<and> c \<noteq> SPACE" by (rule parse_no_digit_chars [OF assms])
  then have nd: "\<forall>c\<in>set ?r. \<not> is_digit c" by blast
  have ns: "filter (\<lambda>c. c \<noteq> SPACE) ?r = ?r"
    using ch by (auto intro: filter_True)
  have "parseCourseSubjCode up ?r = trim (up ?r)"
    by (simp add: parse_no_digit [OF assms(1) nd] ns)
  also have "\<dots> = trim ?r" by (simp add: parse_upper [OF assms(1)])
  also have "\<dots> = ?r" by (simp add: parse_eq trim_idem)
  finally show ?thesis .
qed

lemma reparse_normal_form:
  assumes laws: "upperCaseLaws up"
    and A: "\<forall>c\<in>set A. \<not> is_digit c \<and> c \<noteq> SPACE"
    and uF: "up (trimStart A) = trimStart A" and d: "is_digit d"
    and uT: "up (trimEnd T) = trimEnd T"
  shows "parseCourseSubjCode up (lead A @ d # trimEnd T) = lead A @ d # trimEnd T"
proof -
  let ?F = "if \<forall>c\<in>set A. is_ws c then [] else trimStart A"
  have nd: "\<forall>c\<in>set (lead A). \<not> is_digit c" using A by (intro lead_no_digit) blast
  have tw: "takeWhile (\<lambda>c. \<not> is_digit c) (lead A @ d # trimEnd T) = lead A"
    using nd d by (simp add: takeWhile_tail)
  have dw: "dropWhile (\<lambda>c. \<not> is_digit c) (lead A @ d # trimEnd T) = d # trimEnd T"
    using nd d by (simp add: dropWhile_append)
  have fl: "filter (\<lambda>c. c \<noteq> SPACE) (lead A) = ?F"
    using A by (intro filter_lead) blast
  have upF: "up ?F = ?F" using uF up_Nil [OF laws] by simp
  have "up (?F @ SPACE # d # trimEnd T) = up ?F @ SPACE # up (d # trimEnd T)"
    by (rule up_split [OF laws]) simp
  also have "\<dots> = ?F @ SPACE # d # trimEnd T"
    unfolding upF using up_Cons [OF laws, of d "trimEnd T"] d uT by simp
  finally have "parseCourseSubjCode up (lead A @ d # trimEnd T) = trim (?F @ SPACE # d # trimEnd T)"
    unfolding parse_eq tw dw fl by simp
  also have "\<dots> = lead ?F @ d # trimEnd (trimEnd T)"
    using d by (rule trim_normal_form)
  also have "lead ?F = lead A"
  proof (cases "\<forall>c\<in>set A. is_ws c")
    case True
    then show ?thesis by (simp add: lead_def)
  next
    case False
    then show ?thesis using lead_trimStart [OF False] by auto
  qed
  finally show ?thesis by (simp add: trimEnd_idem)
qed

lemma parse_idem_digit:
  assumes laws: "upperCaseLaws up" and "\<not> (\<forall>c\<in>set s. \<not> is_digit c)"
  shows "parseCourseSubjCode up (parseCourseSubjCode up s) = parseCourseSubjCode up s"
proof -
  let ?pre = "filter (\<lambda>c. c \<noteq> SPACE) (takeWhile (\<lambda>c. \<not> is_digit c) s)"
  let ?A = "up ?pre"
  from assms(2) have "dropWhile (\<lambda>c. \<not> is_digit c) s \<noteq> []" by simp
  then obtain d R where R: "dropWhile (\<lambda>c. \<not> is_digit c) s = d # R"
    by (cases "dropWhile (\<lambda>c. \<not> is_digit c) s") auto
  then have dd: "is_digit d" using hd_dropWhile [of "\<lambda>c. \<not> is_digit c" s] by simp
  have A: "\<forall>c\<in>set ?A. \<not> is_digit c \<and> c \<noteq> SPACE"
    by (rule up_pre_chars [OF laws pre_chars])
  have "up (?pre @ SPACE # d # R) = ?A @ SPACE # up (d # R)"
    by (rule up_split [OF laws]) simp
  also have "\<dots> = ?A @ SPACE # d # up R"
    using up_Cons [OF laws, of d R] dd by simp
  finally have p: "parseCourseSubjCode up s = lead ?A @ d # trimEnd (up R)"
    unfolding parse_eq R using trim_normal_form [OF dd] by simp
  have uF: "up (trimStart ?A) = trimStart ?A"
    by (simp add: up_trimStart [OF laws] up_idem [OF laws])
  have uT: "up (trimEnd (up R)) = trimEnd (up R)"
    by (simp add: up_trimEnd [OF laws] up_idem [OF laws])
  show ?thesis
    unfolding p by (rule reparse_normal_form [OF laws A uF dd uT])
qed

subsection \<open>The example case mapping obeys the laws\<close>

lemma unat_shift_down: "unat (of_nat (unat (c :: code_unit) - 0x20) :: code_unit) = unat c - 0x20"
proof -
  have "unat c < 2 ^ LENGTH(16)" by (rule unsigned_less)
  then have "unat c < 65536" by simp
  then show ?thesis by (simp add: unat_of_nat)
qed

lemma upperUnit_cases:
  "(\<exists>u. upperUnit c = [u] \<and> (u = c \<or> (0x41 \<le> unat u \<and> unat u \<le> 0x5A)
        \<or> (0xC0 \<le> unat u \<and> unat u \<le> 0xDE \<and> unat u \<noteq> 0xD7) \<or> unat u = 0x178 \<or> unat u = 0x39C))
   \<or> upperUnit c = [0x53, 0x53]"
  by (auto simp: upperUnit_def unat_shift_down)

lemma upperUnit_fixed:
  assumes "\<not> ((0x61 \<le> unat c \<and> unat c \<le> 0x7A) \<or> (0xE0 \<le> unat c \<and> unat c \<le> 0xFF) \<or> unat c = 0xB5 \<or> unat c = 0xDF)"
  shows "upperUnit c = [c]"
  using assms by (auto simp: upperUnit_def)

lemma upperUnit_ws: "is_ws c \<Longrightarrow> upperUnit c = [c]"
  by (rule upperUnit_fixed) (auto simp: is_ws_def)

lemma upperUnit_separator: "is_digit c \<or> c = SPACE \<Longrightarrow> upperUnit c = [c]"
  by (rule upperUnit_fixed) (auto simp: is_digit_def SPACE_iff)

lemma upperUnit_idem: "concat (map upperUnit (upperUnit c)) = upperUnit c"
proof -
  from upperUnit_cases [of c] show ?thesis
  proof (elim disjE exE conjE)
    assume "upperUnit c = [0x53, 0x53]"
    moreover have "upperUnit 0x53 = [0x53]" by (rule upperUnit_fixed) simp
    ultimately show ?thesis by simp
  next
    fix u assume u: "upperUnit c = [u]" and "u = c"
    then show ?thesis by simp
  next
    fix u assume u: "upperUnit c = [u]" and "0x41 \<le> unat u" "unat u \<le> 0x5A"
    then have "upperUnit u = [u]" by (intro upperUnit_fixed) auto
    with u show ?thesis by simp
  next
    fix u assume u: "upperUnit c = [u]" and "0xC0 \<le> unat u" "unat u \<le> 0xDE" "unat u \<noteq> 0xD7"
    then have "upperUnit u = [u]" by (intro upperUnit_fixed) auto
    with u show ?thesis by simp
  next
    fix u assume u: "upperUnit c = [u]" and "unat u = 0x178"
    then have "upperUnit u = [u]" by (intro upperUnit_fixed) auto
    with u show ?thesis by simp
  next
    fix u assume u: "upperUnit c = [u]" and "unat u = 0x39C"
    then have "upperUnit u = [u]" by (intro upperUnit_fixed) auto
    with u show ?thesis by simp
  qed
qed

lemma upperUnit_output:
  assumes "d \<in> set (upperUnit c)" "is_digit d \<or> is_ws d"
  shows "d = c"
proof -
  have s: "\<not> is_digit 0x53 \<and> \<not> is_ws 0x53" by (simp add: is_digit_def is_ws_def)
  from upperUnit_cases [of c] assms show ?thesis
    by (elim disjE exE conjE) (use s in \<open>auto simp: is_digit_def is_ws_def\<close>)
qed

lemma upperUnit_not_ws:
  assumes "\<not> is_ws c"
  shows "upperUnit c \<noteq> [] \<and> \<not> is_ws (hd (upperUnit c)) \<and> \<not> is_ws (last (upperUnit c))"
proof -
  have ne: "upperUnit c \<noteq> []" using upperUnit_cases [of c] by auto
  have "\<not> is_ws d" if "d \<in> set (upperUnit c)" for d
    using upperUnit_output [OF that] assms by blast
  with ne show ?thesis using hd_in_set last_in_set by blast
qed

lemma dropWhile_concat_map:
  assumes "\<And>c. is_ws c \<Longrightarrow> g c = [c]"
    and "\<And>c. \<not> is_ws c \<Longrightarrow> g c \<noteq> [] \<and> \<not> is_ws (hd (g c))"
  shows "dropWhile is_ws (concat (map g xs)) = concat (map g (dropWhile is_ws xs))"
proof (induction xs)
  case Nil
  then show ?case by simp
next
  case (Cons x xs)
  show ?case
  proof (cases "is_ws x")
    case True
    then show ?thesis using Cons assms(1) by simp
  next
    case False
    from assms(2) [OF False] obtain y ys where g: "g x = y # ys" and y: "\<not> is_ws y"
      by (cases "g x") auto
    then show ?thesis using False by simp
  qed
qed

lemma exUpperCase_trimStart: "exUpperCase (trimStart xs) = trimStart (exUpperCase xs)"
  unfolding exUpperCase_def trimStart_def
  by (rule dropWhile_concat_map [symmetric]) (auto simp: upperUnit_ws upperUnit_not_ws)

lemma exUpperCase_trimEnd: "exUpperCase (trimEnd xs) = trimEnd (exUpperCase xs)"
proof -
  have r: "rev (concat (map upperUnit ys)) = concat (map (\<lambda>c. rev (upperUnit c)) (rev ys))" for ys
    by (simp add: rev_concat rev_map comp_def)
  have "dropWhile is_ws (concat (map (\<lambda>c. rev (upperUnit c)) (rev xs)))
      = concat (map (\<lambda>c. rev (upperUnit c)) (dropWhile is_ws (rev xs)))"
    by (rule dropWhile_concat_map) (auto simp: upperUnit_ws upperUnit_not_ws hd_rev)
  then have "dropWhile is_ws (rev (exUpperCase xs))
      = rev (concat (map upperUnit (rev (dropWhile is_ws (rev xs)))))"
    unfolding exUpperCase_def r by simp
  then show ?thesis by (simp add: trimEnd_def exUpperCase_def)
qed

lemma exUpperCase_laws: "upperCaseLaws exUpperCase"
  unfolding upperCaseLaws_def
proof (intro conjI allI impI)
  fix xs show "exUpperCase (exUpperCase xs) = exUpperCase xs"
    by (induction xs) (simp_all add: exUpperCase_def upperUnit_idem)
next
  show "exUpperCase [] = []" by (simp add: exUpperCase_def)
next
  fix xs c ys assume "is_digit c \<or> c = SPACE"
  then show "exUpperCase (xs @ c # ys) = exUpperCase xs @ c # exUpperCase ys"
    by (simp add: exUpperCase_def upperUnit_separator)
next
  fix xs c assume "c \<in> set (exUpperCase xs) \<and> (is_digit c \<or> c = SPACE)"
  then show "c \<in> set xs"
    using upperUnit_output [of c] space_is_ws by (auto simp: exUpperCase_def)
next
  fix xs show "exUpperCase (trimStart xs) = trimStart (exUpperCase xs)"
    by (rule exUpperCase_trimStart)
next
  fix xs show "exUpperCase (trimEnd xs) = trimEnd (exUpperCase xs)"
    by (rule exUpperCase_trimEnd)
qed

text \<open>
  Claim C10. Let \<open>toUpperCase\<close> be any mapping with the laws of upper-casing. For every
  string \<open>s\<close> of 16-bit units, \<open>parseCourseSubjCode s\<close> is upper case (upper-casing it
  again changes nothing), it is empty or neither starts nor ends with white space,
  parsing it again gives the same string, and when \<open>s\<close> has no decimal digit the
  result has no space character.
\<close>

theorem parseCourseSubjCode_normal:
  assumes "upperCaseLaws toUpperCase"
  shows
  "toUpperCase (parseCourseSubjCode toUpperCase s) = parseCourseSubjCode toUpperCase s
   \<and> (parseCourseSubjCode toUpperCase s \<noteq> [] \<longrightarrow>
        \<not> is_ws (hd (parseCourseSubjCode toUpperCase s))
        \<and> \<not> is_ws (last (parseCourseSubjCode toUpperCase s)))
   \<and> parseCourseSubjCode toUpperCase (parseCourseSubjCode toUpperCase s)
       = parseCourseSubjCode toUpperCase s
   \<and> ((\<forall>c\<in>set s. \<not> is_digit c) \<longrightarrow> SPACE \<notin> set (parseCourseSubjCode toUpperCase s))"
  using parse_upper [OF assms] parse_trimmed parse_idem_no_digit [OF assms]
    parse_idem_digit [OF assms] parse_no_digit_chars [OF assms]
  by blast

theorem parseCourseSubjCode_normal_witness:
  "upperCaseLaws exUpperCase
   \<and> parseCourseSubjCode exUpperCase [0xDF, 0x20, 0x65] = [0x53, 0x53, 0x45]
   \<and> \<not> is_digit 0xDF \<and> \<not> is_digit 0x20 \<and> \<not> is_digit 0x65
   \<and> parseCourseSubjCode exUpperCase [0xDF, 0x20, 0x65] \<noteq> []
   \<and> exUpperCase (parseCourseSubjCode exUpperCase [0xDF, 0x20, 0x65])
       = parseCourseSubjCode exUpperCase [0xDF, 0x20, 0x65]
   \<and> \<not> is_ws (hd (parseCourseSubjCode exUpperCase [0xDF, 0x20, 0x65]))
   \<and> \<not> is_ws (last (parseCourseSubjCode exUpperCase [0xDF, 0x20, 0x65]))
   \<and> parseCourseSubjCode exUpperCase (parseCourseSubjCode exUpperCase [0xDF, 0x20, 0x65])
       = parseCourseSubjCode exUpperCase [0xDF, 0x20, 0x65]
   \<and> SPACE \<notin> set (parseCourseSubjCode exUpperCase [0xDF, 0x20, 0x65])"
proof -
  have v: "parseCourseSubjCode exUpperCase [0xDF, 0x20, 0x65] = [0x53, 0x53, 0x45]"
    by (simp add: parse_eq is_digit_def is_ws_def SPACE_def exUpperCase_def upperUnit_def
        trim_def trimStart_def trimEnd_def)
  have nd: "\<forall>c\<in>set [0xDF, 0x20, 0x65]. \<not> is_digit c" by (simp add: is_digit_def)
  have ne: "[0x53, 0x53, 0x45 :: code_unit] \<noteq> []" by simp
  from parseCourseSubjCode_normal [OF exUpperCase_laws, of "[0xDF, 0x20, 0x65]"]
    exUpperCase_laws nd ne
  show ?thesis unfolding v by simp
qed

text \<open>
  The parser on \<open>cse 100\<close>, on U+00E9 (e with acute) followed by \<open> 1\<close>, and on U+00DF
  (sharp s) followed by \<open>1\<close>: the results are \<open>CSE 100\<close>, U+00C9 followed by \<open> 1\<close>, and
  \<open>SS 1\<close>.
\<close>

lemma parseCourseSubjCode_examples:
  "parseCourseSubjCode exUpperCase (js ''cse 100'') = js ''CSE 100''"
  "parseCourseSubjCode exUpperCase [0xE9, 0x20, 0x31] = [0xC9, 0x20, 0x31]"
  "parseCourseSubjCode exUpperCase [0xDF, 0x31] = js ''SS 1''"
  by (simp_all add: parse_eq js_def is_digit_def is_ws_def SPACE_def exUpperCase_def
      upperUnit_def trim_def trimStart_def trimEnd_def)

section \<open>Action rows: the loops and the row budget\<close>

lemma selectLoop_eq:
  "i \<le> min (length ms) MAX_ACTION_ROWS \<Longrightarrow>
   selectLoop ms i rows used =
     (rows @ map (\<lambda>m. [m]) (take (min (length ms) MAX_ACTION_ROWS - i) (drop i ms)),
      used + (min (length ms) MAX_ACTION_ROWS - i))"
proof (induction ms i rows used rule: selectLoop.induct)
  case (1 ms i rows used)
  define K where "K = min (length ms) MAX_ACTION_ROWS"
  have Kl: "K \<le> length ms" by (simp add: K_def)
  show ?case
  proof (cases "i < K")
    case False
    then have z: "K - i = 0" by simp
    have "selectLoop ms i rows used = (rows, used)"
      using False by (subst selectLoop.simps) (auto simp: K_def)
    then show ?thesis unfolding K_def [symmetric] z by simp
  next
    case True
    then have d: "drop i ms = ms ! i # drop (Suc i) ms"
      using Kl by (simp add: Cons_nth_drop_Suc)
    from True obtain n where n: "K - i = Suc n"
      by (cases "K - i") auto
    then have n': "K - (i + 1) = n" by simp
    from True have le: "i + 1 \<le> K" by simp
    have c: "i < min (length ms) MAX_ACTION_ROWS" using True by (simp add: K_def)
    have "selectLoop ms i rows used = selectLoop ms (i + 1) (rows @ [[ms ! i]]) (used + 1)"
      using c by (subst selectLoop.simps) simp
    also have "\<dots> = ((rows @ [[ms ! i]]) @ map (\<lambda>m. [m]) (take (K - (i + 1)) (drop (i + 1) ms)),
        (used + 1) + (K - (i + 1)))"
      using "1.IH" [OF c] le unfolding K_def by simp
    also have "\<dots> = (rows @ map (\<lambda>m. [m]) (take (K - i) (drop i ms)), used + (K - i))"
      unfolding n n' d by simp
    finally show ?thesis unfolding K_def .
  qed
qed

lemma fillRow_eq: "fillRow bs i j row = row @ take (5 - j) (drop (i + j) bs)"
proof (induction bs i j row rule: fillRow.induct)
  case (1 bs i j row)
  show ?case
  proof (cases "j < 5 \<and> i + j < length bs")
    case False
    then have "fillRow bs i j row = row" by (subst fillRow.simps) auto
    moreover have "take (5 - j) (drop (i + j) bs) = []" using False by auto
    ultimately show ?thesis by simp
  next
    case True
    then have d: "drop (i + j) bs = bs ! (i + j) # drop (Suc (i + j)) bs"
      by (simp add: Cons_nth_drop_Suc)
    from True obtain n where n: "5 - j = Suc n" by (cases "5 - j") auto
    then have n': "5 - (j + 1) = n" by simp
    have "fillRow bs i j row = fillRow bs i (j + 1) (row @ [bs ! (i + j)])"
      using True by (subst fillRow.simps) simp
    also have "\<dots> = (row @ [bs ! (i + j)]) @ take (5 - (j + 1)) (drop (i + (j + 1)) bs)"
      by (rule "1.IH" [OF True])
    also have "\<dots> = row @ take (5 - j) (drop (i + j) bs)"
      unfolding n n' d by simp
    finally show ?thesis .
  qed
qed

lemma take_chunk:
  fixes M i :: nat
  assumes "i < M" "M \<le> length bs" "5 \<le> M - i \<or> M = length bs"
  shows "take 5 (drop i bs) @ take (M - (i + 5)) (drop (i + 5) bs) = take (M - i) (drop i bs)"
proof (cases "5 \<le> M - i")
  case True
  then have e: "M - i = 5 + (M - (i + 5))" by arith
  have d: "drop 5 (drop i bs) = drop (i + 5) bs" by (simp only: drop_drop add.commute)
  have "take (M - i) (drop i bs) = take (5 + (M - (i + 5))) (drop i bs)"
    using e by (rule arg_cong)
  also have "\<dots> = take 5 (drop i bs) @ take (M - (i + 5)) (drop 5 (drop i bs))"
    by (rule take_add)
  finally show ?thesis unfolding d by (rule sym)
next
  case False
  with assms have M: "M = length bs" by simp
  have l: "length (drop i bs) \<le> 5" using False M by simp
  have z: "M - (i + 5) = 0" using False by simp
  show ?thesis unfolding z using l M by simp
qed

lemma ceil5_step:
  fixes n :: nat
  assumes "0 < n"
  shows "(n - 5 + 4) div 5 + 1 = (n + 4) div 5"
proof (cases "5 \<le> n")
  case True
  then obtain d where d: "n = d + 5" by (metis le_add_diff_inverse2)
  have "(d + 4 + 5) div 5 = (d + 4) div 5 + 1" by (rule div_add_self2) simp
  then show ?thesis unfolding d by (simp add: add.commute add.left_commute)
next
  case False
  with assms have "n = 1 \<or> n = 2 \<or> n = 3 \<or> n = 4" by arith
  then show ?thesis by auto
qed
lemma ceil5_bound:
  fixes n c :: nat
  assumes "n \<le> 5 * c"
  shows "(n + 4) div 5 \<le> c"
proof -
  have "(n + 4) div 5 \<le> (5 * c + 4) div 5" using assms by (intro div_le_mono) simp
  also have "\<dots> = c" by simp
  finally show ?thesis .
qed
lemma buttonLoop_props:
  assumes "used \<le> MAX_ACTION_ROWS" "5 dvd i"
  shows "\<exists>new. buttonLoop bs used i rows = rows @ new
         \<and> concat new = take (min (length bs) (5 * (MAX_ACTION_ROWS - used)) - i) (drop i bs)
         \<and> (\<forall>r\<in>set new. 1 \<le> length r \<and> length r \<le> 5)
         \<and> length new = (min (length bs) (5 * (MAX_ACTION_ROWS - used)) - i + 4) div 5"
  using assms
proof (induction bs used i rows rule: buttonLoop.induct)
  case (1 bs used i rows)
  define M where "M = min (length bs) (5 * (MAX_ACTION_ROWS - used))"
  have Ml: "M \<le> length bs" by (simp add: M_def)
  have bound: "(int i < min (int (length bs)) (5 * (int MAX_ACTION_ROWS - int used))) = (i < M)"
    using "1.prems"(1) unfolding M_def by (auto simp: min_def)
  show ?case unfolding M_def [symmetric]
  proof (cases "i < M")
    case False
    then have z: "M - i = 0" by simp
    have "buttonLoop bs used i rows = rows @ []"
      using False bound by (subst buttonLoop.simps) (simp only: if_False append_Nil2)
    then show "\<exists>new. buttonLoop bs used i rows = rows @ new
         \<and> concat new = take (M - i) (drop i bs)
         \<and> (\<forall>r\<in>set new. 1 \<le> length r \<and> length r \<le> 5)
         \<and> length new = (M - i + 4) div 5"
      unfolding z by (intro exI [of _ "[]"]) simp
  next
    case True
    define r where "r = take 5 (drop i bs)"
    have c: "int i < min (int (length bs)) (5 * (int MAX_ACTION_ROWS - int used))"
      using True bound by simp
    have dv: "5 dvd i + 5" using "1.prems"(2) by simp
    have fr: "fillRow bs i 0 [] = r" by (simp add: fillRow_eq r_def)
    from "1.IH" [OF c "1.prems"(1) dv]
    obtain new where new: "buttonLoop bs used (i + 5) (rows @ [r]) = (rows @ [r]) @ new"
      and cc: "concat new = take (M - (i + 5)) (drop (i + 5) bs)"
      and ln: "\<forall>r\<in>set new. 1 \<le> length r \<and> length r \<le> 5"
      and len: "length new = (M - (i + 5) + 4) div 5"
      unfolding M_def [symmetric] fr by blast
    have "buttonLoop bs used i rows = buttonLoop bs used (i + 5) (rows @ [r])"
      using c by (subst buttonLoop.simps) (simp add: fr)
    then have step: "buttonLoop bs used i rows = rows @ (r # new)"
      using new by simp
    have big: "5 \<le> M - i \<or> M = length bs"
    proof (cases "M = length bs")
      case False
      then have M: "M = 5 * (MAX_ACTION_ROWS - used)"
        unfolding M_def by (simp add: min_def split: if_splits)
      from "1.prems"(2) obtain q where q: "i = 5 * q" by (auto simp: dvd_def)
      with True M have "q < MAX_ACTION_ROWS - used" by simp
      then have "5 * q + 5 \<le> 5 * (MAX_ACTION_ROWS - used)" by simp
      with q M show ?thesis by arith
    qed simp
    have c1: "concat (r # new) = take (M - i) (drop i bs)"
      using take_chunk [OF True Ml big] cc by (simp add: r_def)
    have lr: "length r = min 5 (length bs - i)" by (simp add: r_def min.commute)
    have "1 \<le> length r \<and> length r \<le> 5" using True Ml unfolding lr by simp
    then have c2: "\<forall>r\<in>set (r # new). 1 \<le> length r \<and> length r \<le> 5"
      using ln by simp
    have "0 < M - i" using True by simp
    then have "(M - i - 5 + 4) div 5 + 1 = (M - i + 4) div 5" by (rule ceil5_step)
    then have "(M - (i + 5) + 4) div 5 + 1 = (M - i + 4) div 5" by (simp only: diff_diff_left)
    then have c3: "length (r # new) = (M - i + 4) div 5"
      using len by simp
    from step c1 c2 c3
    show "\<exists>new. buttonLoop bs used i rows = rows @ new
         \<and> concat new = take (M - i) (drop i bs)
         \<and> (\<forall>r\<in>set new. 1 \<le> length r \<and> length r \<le> 5)
         \<and> length new = (M - i + 4) div 5"
      by blast
  qed
qed

lemma take_min_length: "take (min (length xs) n) xs = take n xs"
  by (simp add: min_def)

text \<open>
  Claim C5. For every list of components, with \<open>N\<close> select menus and \<open>M\<close> buttons,
  \<open>getActionRowsFromComponents\<close> returns at most \<open>MAX_ACTION_ROWS = 5\<close> rows. The first
  \<open>k = min N 5\<close> rows hold one select menu each, in input order. The rows after them
  hold the first \<open>5 * (5 - k)\<close> buttons in input order, between one and five per row,
  in \<open>\<lceil>min M (5 * (5 - k)) / 5\<rceil>\<close> rows, so at most \<open>5 - k\<close>. Menus and buttons
  beyond that capacity, and components of any other type, appear in no row; the
  function is total, so nothing is raised.
\<close>

theorem getActionRowsFromComponents_rows:
  "(let rows = getActionRowsFromComponents options;
        selectMenus = filter (\<lambda>x. ctype x = SELECT_MENU) options;
        buttons = filter (\<lambda>x. ctype x = BUTTON) options;
        k = min (length selectMenus) MAX_ACTION_ROWS
    in length rows \<le> MAX_ACTION_ROWS
     \<and> take k rows = map (\<lambda>m. [m]) (take MAX_ACTION_ROWS selectMenus)
     \<and> concat (drop k rows) = take (5 * (MAX_ACTION_ROWS - k)) buttons
     \<and> (\<forall>row\<in>set (drop k rows). 1 \<le> length row \<and> length row \<le> 5)
     \<and> length (drop k rows) = (min (length buttons) (5 * (MAX_ACTION_ROWS - k)) + 4) div 5)"
proof -
  define ms where "ms = filter (\<lambda>x. ctype x = SELECT_MENU) options"
  define bs where "bs = filter (\<lambda>x. ctype x = BUTTON) options"
  define k where "k = min (length ms) MAX_ACTION_ROWS"
  define rows0 where "rows0 = map (\<lambda>m. [m]) (take MAX_ACTION_ROWS ms)"
  have l0: "length rows0 = k" by (simp add: rows0_def k_def min.commute)
  have "selectLoop ms 0 [] 0 = (map (\<lambda>m. [m]) (take k ms), k)"
    by (simp add: selectLoop_eq k_def)
  then have sl: "selectLoop ms 0 [] 0 = (rows0, k)"
    unfolding k_def take_min_length rows0_def .
  have k5: "k \<le> MAX_ACTION_ROWS" by (simp add: k_def)
  from buttonLoop_props [OF k5, of 0 bs rows0]
  obtain new where new: "buttonLoop bs k 0 rows0 = rows0 @ new"
    and cc: "concat new = take (min (length bs) (5 * (MAX_ACTION_ROWS - k))) bs"
    and ln: "\<forall>r\<in>set new. 1 \<le> length r \<and> length r \<le> 5"
    and len: "length new = (min (length bs) (5 * (MAX_ACTION_ROWS - k)) + 4) div 5"
    by auto
  have g: "getActionRowsFromComponents options = rows0 @ new"
    by (simp add: getActionRowsFromComponents_def ms_def [symmetric] bs_def [symmetric] sl new)
  have tk: "take k (rows0 @ new) = rows0" using l0 by simp
  have dr: "drop k (rows0 @ new) = new" using l0 by simp
  have "(min (length bs) (5 * (MAX_ACTION_ROWS - k)) + 4) div 5 \<le> MAX_ACTION_ROWS - k"
    by (rule ceil5_bound) simp
  then have "length new \<le> MAX_ACTION_ROWS - k" unfolding len .
  then have tot: "length (rows0 @ new) \<le> MAX_ACTION_ROWS" using l0 k5 by simp
  have cc': "concat new = take (5 * (MAX_ACTION_ROWS - k)) bs"
    using cc by (simp add: min_def)
  show ?thesis
    unfolding Let_def ms_def [symmetric] bs_def [symmetric] k_def [symmetric] g tk dr
    using tot cc' ln len rows0_def by simp
qed

theorem getActionRowsFromComponents_rows_witness:
  "getActionRowsFromComponents
     [\<lparr>ctype = BUTTON, customId = ''b1''\<rparr>, \<lparr>ctype = SELECT_MENU, customId = ''m1''\<rparr>,
      \<lparr>ctype = BUTTON, customId = ''b2''\<rparr>, \<lparr>ctype = BUTTON, customId = ''b3''\<rparr>,
      \<lparr>ctype = TEXT_INPUT, customId = ''t1''\<rparr>, \<lparr>ctype = BUTTON, customId = ''b4''\<rparr>,
      \<lparr>ctype = BUTTON, customId = ''b5''\<rparr>, \<lparr>ctype = BUTTON, customId = ''b6''\<rparr>]
   = [[\<lparr>ctype = SELECT_MENU, customId = ''m1''\<rparr>],
      [\<lparr>ctype = BUTTON, customId = ''b1''\<rparr>, \<lparr>ctype = BUTTON, customId = ''b2''\<rparr>,
       \<lparr>ctype = BUTTON, customId = ''b3''\<rparr>, \<lparr>ctype = BUTTON, customId = ''b4''\<rparr>,
       \<lparr>ctype = BUTTON, customId = ''b5''\<rparr>],
      [\<lparr>ctype = BUTTON, customId = ''b6''\<rparr>]]
   \<and> length (drop 1 (getActionRowsFromComponents
     [\<lparr>ctype = BUTTON, customId = ''b1''\<rparr>, \<lparr>ctype = SELECT_MENU, customId = ''m1''\<rparr>,
      \<lparr>ctype = BUTTON, customId = ''b2''\<rparr>, \<lparr>ctype = BUTTON, customId = ''b3''\<rparr>,
      \<lparr>ctype = TEXT_INPUT, customId = ''t1''\<rparr>, \<lparr>ctype = BUTTON, customId = ''b4''\<rparr>,
      \<lparr>ctype = BUTTON, customId = ''b5''\<rparr>, \<lparr>ctype = BUTTON, customId = ''b6''\<rparr>])) = 2"
proof -
  let ?opts = "[\<lparr>ctype = BUTTON, customId = ''b1''\<rparr>, \<lparr>ctype = SELECT_MENU, customId = ''m1''\<rparr>,
      \<lparr>ctype = BUTTON, customId = ''b2''\<rparr>, \<lparr>ctype = BUTTON, customId = ''b3''\<rparr>,
      \<lparr>ctype = TEXT_INPUT, customId = ''t1''\<rparr>, \<lparr>ctype = BUTTON, customId = ''b4''\<rparr>,
      \<lparr>ctype = BUTTON, customId = ''b5''\<rparr>, \<lparr>ctype = BUTTON, customId = ''b6''\<rparr>]"
  have v: "getActionRowsFromComponents ?opts
    = [[\<lparr>ctype = SELECT_MENU, customId = ''m1''\<rparr>],
      [\<lparr>ctype = BUTTON, customId = ''b1''\<rparr>, \<lparr>ctype = BUTTON, customId = ''b2''\<rparr>,
       \<lparr>ctype = BUTTON, customId = ''b3''\<rparr>, \<lparr>ctype = BUTTON, customId = ''b4''\<rparr>,
       \<lparr>ctype = BUTTON, customId = ''b5''\<rparr>],
      [\<lparr>ctype = BUTTON, customId = ''b6''\<rparr>]]"
    by code_simp
  show ?thesis
    using getActionRowsFromComponents_rows [of ?opts] unfolding v by (simp add: MAX_ACTION_ROWS_def)
qed

section \<open>The dispatcher: gates, cooldown and permission replies\<close>

lemma handler_dev_gate:
  "\<not> passesDevGate cfg i \<Longrightarrow>
   slashCommandHandler cfg util NameCommands i =
     [Reply \<lparr>reply_content =
               Some ''The bot is currently in development mode, and cannot be used right now.'',
             reply_ephemeral = False, reply_embeds = []\<rparr>]"
  by (simp add: slashCommandHandler_def passesDevGate_def)

lemma handler_after_guards:
  assumes "reachesPermissionCheck cfg NameCommands i c"
  shows "slashCommandHandler cfg util NameCommands i =
     (let ctx = \<lparr>ctx_user = interaction_user i, ctx_guild = interaction_guild i,
                 ctx_interaction = i, ctx_channel = interaction_channel i,
                 ctx_member = fetchedMember i\<rparr>;
          canRunInfo = hasPermissionToRun c (fetchedMember i) (interaction_guild i);
          cooldown =
            (if user_id (interaction_user i) \<notin> set (botOwnerIds cfg) \<and> \<not> hasAdmin canRunInfo
             then [AddToCooldown (interaction_commandName i) (interaction_user i)] else [])
      in if canRun canRunInfo then cooldown @ [Run (interaction_commandName i) ctx]
         else if truthy_string (reason canRunInfo) then
           cooldown @ [Reply \<lparr>reply_content = reason canRunInfo, reply_ephemeral = True,
                              reply_embeds = []\<rparr>]
         else cooldown @ [Reply (noPermissionReply util (interaction_user i) canRunInfo)])"
proof -
  from assms have g: "\<not> (\<not> isProd cfg \<and> user_id (interaction_user i) \<notin> set (botOwnerIds cfg))"
    and f: "NameCommands (interaction_commandName i) = Some c"
    and cd: "\<not> checkCooldownFor c (interaction_user i) > 0"
    and go: "\<not> (guildOnly c \<and> interaction_guild i = None)"
    by (simp_all add: reachesPermissionCheck_def passesDevGate_def)
  show ?thesis
    unfolding slashCommandHandler_def fetchedMember_def [symmetric]
    by (simp only: g f cd go if_False option.case Let_def command_context.simps)
qed

text \<open>
  Claim C9, as stated, fails: in development mode an interaction of a user who is not
  a bot owner is answered with the development-mode notice before the command name
  is looked up, whether or not the name is registered.
\<close>

theorem unknown_command_dev_mode_counterexample:
  "exRegistry (exCommand 0 undefined) ''nosuchcommand'' = None
   \<and> slashCommandHandler devConfig exUtil (exRegistry (exCommand 0 undefined))
        (exInteraction\<lparr>interaction_commandName := ''nosuchcommand''\<rparr>)
      = [Reply \<lparr>reply_content =
                 Some ''The bot is currently in development mode, and cannot be used right now.'',
               reply_ephemeral = False, reply_embeds = []\<rparr>]"
  by (simp add: slashCommandHandler_def devConfig_def exInteraction_def exUser_def
      exRegistry_def)

text \<open>
  Claim C9, amended. For every command interaction that passes the development-mode
  gate (the bot is in production mode, or the user is a bot owner) and whose command
  name matches no registered command, the handler does nothing: it makes no reply,
  starts no cooldown, runs no command, and the model has no error branch to take.
\<close>

theorem unknown_command_ignored:
  assumes "passesDevGate cfg i" and "NameCommands (interaction_commandName i) = None"
  shows "slashCommandHandler cfg util NameCommands i = []"
  using assms by (simp add: slashCommandHandler_def passesDevGate_def)

theorem unknown_command_ignored_witness:
  "passesDevGate prodConfig (exInteraction\<lparr>interaction_commandName := ''nosuchcommand''\<rparr>)
   \<and> exRegistry (exCommand 0 undefined) ''nosuchcommand'' = None
   \<and> slashCommandHandler prodConfig exUtil (exRegistry (exCommand 0 undefined))
        (exInteraction\<lparr>interaction_commandName := ''nosuchcommand''\<rparr>) = []"
proof -
  let ?i = "exInteraction\<lparr>interaction_commandName := ''nosuchcommand''\<rparr>"
  have g: "passesDevGate prodConfig ?i" by (simp add: passesDevGate_def prodConfig_def)
  have n: "exRegistry (exCommand 0 undefined) (interaction_commandName ?i) = None"
    by (simp add: exRegistry_def)
  from unknown_command_ignored
    [where cfg = prodConfig and i = ?i and util = exUtil
       and NameCommands = "exRegistry (exCommand 0 undefined)"] g n
  show ?thesis by simp
qed

text \<open>
  Claim C6, as stated, fails for the same gate: in development mode a user who is not
  a bot owner and who has a positive remaining cooldown is answered with the
  development-mode notice, which is not ephemeral and names no duration.
\<close>

theorem cooldown_dev_mode_counterexample:
  "exRegistry (exCommand 3000 undefined) (interaction_commandName exInteraction)
     = Some (exCommand 3000 undefined)
   \<and> checkCooldownFor (exCommand 3000 undefined) (interaction_user exInteraction) > 0
   \<and> slashCommandHandler devConfig exUtil (exRegistry (exCommand 3000 undefined)) exInteraction
      = [Reply \<lparr>reply_content =
                 Some ''The bot is currently in development mode, and cannot be used right now.'',
               reply_ephemeral = False, reply_embeds = []\<rparr>]"
  by (simp add: slashCommandHandler_def devConfig_def exInteraction_def exUser_def
      exRegistry_def exCommand_def)

text \<open>
  Claim C6, amended. For every user \<open>U\<close> and registered command \<open>C\<close> whose invocation
  passes the development-mode gate: if \<open>U\<close> has a positive remaining cooldown for \<open>C\<close>,
  the handler makes exactly one call, an ephemeral reply that carries the formatted
  remaining duration, and stops: \<open>C\<close> is not run and \<open>addToCooldown\<close> is not called.
\<close>

theorem cooldown_blocks_command:
  assumes "passesDevGate cfg i"
    and "NameCommands (interaction_commandName i) = Some c"
    and "checkCooldownFor c (interaction_user i) > 0"
  shows "slashCommandHandler cfg util NameCommands i =
     [Reply \<lparr>reply_content =
               Some (''You are on cooldown for **`''
                     @ formatDuration util (checkCooldownFor c (interaction_user i)) True False
                     @ ''`**.''),
             reply_ephemeral = True, reply_embeds = []\<rparr>]"
  using assms by (simp add: slashCommandHandler_def passesDevGate_def Let_def)

theorem cooldown_blocks_command_witness:
  "passesDevGate prodConfig exInteraction
   \<and> exRegistry (exCommand 3000 undefined) (interaction_commandName exInteraction)
       = Some (exCommand 3000 undefined)
   \<and> checkCooldownFor (exCommand 3000 undefined) (interaction_user exInteraction) > 0
   \<and> slashCommandHandler prodConfig exUtil (exRegistry (exCommand 3000 undefined)) exInteraction
      = [Reply \<lparr>reply_content = Some ''You are on cooldown for **`some seconds`**.'',
               reply_ephemeral = True, reply_embeds = []\<rparr>]"
proof -
  have g: "passesDevGate prodConfig exInteraction"
    by (simp add: passesDevGate_def prodConfig_def)
  have f: "exRegistry (exCommand 3000 undefined) (interaction_commandName exInteraction)
       = Some (exCommand 3000 undefined)"
    by (simp add: exRegistry_def exInteraction_def)
  have p: "checkCooldownFor (exCommand 3000 undefined) (interaction_user exInteraction) > 0"
    by (simp add: exCommand_def)
  from cooldown_blocks_command
    [where cfg = prodConfig and i = exInteraction and util = exUtil
       and c = "exCommand 3000 undefined"
       and NameCommands = "exRegistry (exCommand 3000 undefined)"] g f p
  show ?thesis by (simp add: exUtil_def exCommand_def)
qed

text \<open>
  Claim C7. For every invocation that reaches the permission check, the handler calls
  \<open>addToCooldown\<close> for the invoking user exactly when the user is not a bot owner and
  the permission result lacks admin rights, and then once; the permission result's
  \<open>canRun\<close> and \<open>reason\<close> play no part.
\<close>

theorem cooldown_started_iff:
  assumes "reachesPermissionCheck cfg NameCommands i c"
  shows "filter is_AddToCooldown (slashCommandHandler cfg util NameCommands i) =
     (if user_id (interaction_user i) \<notin> set (botOwnerIds cfg)
         \<and> \<not> hasAdmin (hasPermissionToRun c (fetchedMember i) (interaction_guild i))
      then [AddToCooldown (interaction_commandName i) (interaction_user i)] else [])"
  unfolding handler_after_guards [OF assms] by (simp add: Let_def)

theorem cooldown_started_iff_witness:
  "reachesPermissionCheck prodConfig
     (exRegistry (exCommand 0 \<lparr>canRun = False, hasAdmin = False, missingUserPerms = [],
        missingBotPerms = [], reason = Some ''Not now.''\<rparr>))
     exInteraction
     (exCommand 0 \<lparr>canRun = False, hasAdmin = False, missingUserPerms = [],
        missingBotPerms = [], reason = Some ''Not now.''\<rparr>)
   \<and> filter is_AddToCooldown
        (slashCommandHandler prodConfig exUtil
          (exRegistry (exCommand 0 \<lparr>canRun = False, hasAdmin = False, missingUserPerms = [],
             missingBotPerms = [], reason = Some ''Not now.''\<rparr>))
          exInteraction)
      = [AddToCooldown ''help'' exUser]"
proof -
  let ?c = "exCommand 0 \<lparr>canRun = False, hasAdmin = False, missingUserPerms = [],
        missingBotPerms = [], reason = Some ''Not now.''\<rparr>"
  have r: "reachesPermissionCheck prodConfig (exRegistry ?c) exInteraction ?c"
    by (simp add: reachesPermissionCheck_def passesDevGate_def prodConfig_def exRegistry_def
        exInteraction_def exCommand_def)
  from cooldown_started_iff
    [where cfg = prodConfig and i = exInteraction and util = exUtil and c = ?c
       and NameCommands = "exRegistry ?c"] r
  show ?thesis
    by (simp add: prodConfig_def exInteraction_def exUser_def exCommand_def)
qed

lemma noPermissionReply_blank:
  assumes "embed_fields (generateBlankEmbed util u ''RED'') = []"
  shows "noPermissionReply util u info =
     (let mu = missingUserPerms info; mb = missingBotPerms info;
          userField = \<lparr>field_name = ''Missing Member Permissions (Need ??? 1)'',
                       field_value = codifyString util (join '', '' mu)\<rparr>;
          botField = \<lparr>field_name = ''Missing Bot Permissions (Need All)'',
                      field_value = codifyString util (join '', '' mb)\<rparr>;
          unknownField = \<lparr>field_name = ''Unknown Error'',
                          field_value = ''Something wrong occurred. Please try again later.''\<rparr>
      in \<lparr>reply_content = None, reply_ephemeral = False,
          reply_embeds =
            [(generateBlankEmbed util u ''RED'')
               \<lparr>embed_title := Some ''Missing Permissions.'',
                embed_description := Some
                  (''You, or the bot, are missing permissions needed to run the command.''
                   @ (if mu \<noteq> [] then lineBreak util
                        @ ''- You need to fulfill at least __one__ of the two missing member permissions.''
                      else [])
                   @ (if mb \<noteq> [] then lineBreak util
                        @ ''- The bot needs every permission that is specified to run this command.''
                      else [])
                   @ (if mu = [] \<and> mb = [] then lineBreak util
                        @ ''- Unknown error occurred. Please report this.''
                      else [])),
                embed_fields :=
                  (if mu \<noteq> [] then [userField, userField] else [])
                  @ (if mb \<noteq> [] then [botField] else [])
                  @ (if mu = [] \<and> mb = [] then [unknownField] else [])\<rparr>]\<rparr>)"
  using assms by (simp add: noPermissionReply_def addField_def Let_def)

text \<open>
  Claim C8. When the permission check is reached, denies the run and gives no reason
  (\<open>undefined\<close>, \<open>null\<close> or the empty string), the handler's one reply is an embed
  titled \<open>Missing Permissions.\<close> built on the blank embed. If user permissions are
  missing it lists them under \<open>Missing Member Permissions (Need ??? 1)\<close> (the source
  adds this field twice) and tells the user that one of them is enough; if bot
  permissions are missing it lists them under the different name
  \<open>Missing Bot Permissions (Need All)\<close> and says the bot needs every one. If both
  lists are empty the only field is \<open>Unknown Error\<close> and the description asks the
  user to report it. The blank embed is taken to have no fields.
\<close>

theorem missing_permissions_reply:
  assumes "reachesPermissionCheck cfg NameCommands i c"
    and "\<not> canRun (hasPermissionToRun c (fetchedMember i) (interaction_guild i))"
    and "\<not> truthy_string (reason (hasPermissionToRun c (fetchedMember i) (interaction_guild i)))"
    and "embed_fields (generateBlankEmbed util (interaction_user i) ''RED'') = []"
  shows
    "(let info = hasPermissionToRun c (fetchedMember i) (interaction_guild i);
          mu = missingUserPerms info; mb = missingBotPerms info;
          userField = \<lparr>field_name = ''Missing Member Permissions (Need ??? 1)'',
                       field_value = codifyString util (join '', '' mu)\<rparr>;
          botField = \<lparr>field_name = ''Missing Bot Permissions (Need All)'',
                      field_value = codifyString util (join '', '' mb)\<rparr>;
          unknownField = \<lparr>field_name = ''Unknown Error'',
                          field_value = ''Something wrong occurred. Please try again later.''\<rparr>
      in filter is_Reply (slashCommandHandler cfg util NameCommands i) =
          [Reply \<lparr>reply_content = None, reply_ephemeral = False,
            reply_embeds =
              [(generateBlankEmbed util (interaction_user i) ''RED'')
                 \<lparr>embed_title := Some ''Missing Permissions.'',
                  embed_description := Some
                    (''You, or the bot, are missing permissions needed to run the command.''
                     @ (if mu \<noteq> [] then lineBreak util
                          @ ''- You need to fulfill at least __one__ of the two missing member permissions.''
                        else [])
                     @ (if mb \<noteq> [] then lineBreak util
                          @ ''- The bot needs every permission that is specified to run this command.''
                        else [])
                     @ (if mu = [] \<and> mb = [] then lineBreak util
                          @ ''- Unknown error occurred. Please report this.''
                        else [])),
                  embed_fields :=
                    (if mu \<noteq> [] then [userField, userField] else [])
                    @ (if mb \<noteq> [] then [botField] else [])
                    @ (if mu = [] \<and> mb = [] then [unknownField] else [])\<rparr>]\<rparr>]
        \<and> field_name userField \<noteq> field_name botField)"
proof -
  let ?info = "hasPermissionToRun c (fetchedMember i) (interaction_guild i)"
  have "filter is_Reply (slashCommandHandler cfg util NameCommands i) =
          [Reply (noPermissionReply util (interaction_user i) ?info)]"
    unfolding handler_after_guards [OF assms(1)] using assms(2,3) by (simp add: Let_def)
  then show ?thesis
    unfolding noPermissionReply_blank [OF assms(4)] by (simp add: Let_def)
qed

theorem missing_permissions_reply_witness:
  "reachesPermissionCheck prodConfig
     (exRegistry (exCommand 0 \<lparr>canRun = False, hasAdmin = False,
        missingUserPerms = [''KICK_MEMBERS'', ''BAN_MEMBERS''],
        missingBotPerms = [''SEND_MESSAGES''], reason = None\<rparr>))
     exInteraction
     (exCommand 0 \<lparr>canRun = False, hasAdmin = False,
        missingUserPerms = [''KICK_MEMBERS'', ''BAN_MEMBERS''],
        missingBotPerms = [''SEND_MESSAGES''], reason = None\<rparr>)
   \<and> embed_fields (generateBlankEmbed exUtil (interaction_user exInteraction) ''RED'') = []
   \<and> filter is_Reply
        (slashCommandHandler prodConfig exUtil
          (exRegistry (exCommand 0 \<lparr>canRun = False, hasAdmin = False,
             missingUserPerms = [''KICK_MEMBERS'', ''BAN_MEMBERS''],
             missingBotPerms = [''SEND_MESSAGES''], reason = None\<rparr>))
          exInteraction)
      = [Reply \<lparr>reply_content = None, reply_ephemeral = False,
          reply_embeds =
            [\<lparr>embed_title = Some ''Missing Permissions.'',
              embed_description = Some
                (''You, or the bot, are missing permissions needed to run the command.''
                 @ [CHR 0x0A]
                 @ ''- You need to fulfill at least __one__ of the two missing member permissions.''
                 @ [CHR 0x0A]
                 @ ''- The bot needs every permission that is specified to run this command.''),
              embed_fields =
                [\<lparr>field_name = ''Missing Member Permissions (Need ??? 1)'',
                  field_value = ''<KICK_MEMBERS, BAN_MEMBERS>''\<rparr>,
                 \<lparr>field_name = ''Missing Member Permissions (Need ??? 1)'',
                  field_value = ''<KICK_MEMBERS, BAN_MEMBERS>''\<rparr>,
                 \<lparr>field_name = ''Missing Bot Permissions (Need All)'',
                  field_value = ''<SEND_MESSAGES>''\<rparr>]\<rparr>]\<rparr>]"
proof -
  let ?info = "\<lparr>canRun = False, hasAdmin = False,
        missingUserPerms = [''KICK_MEMBERS'', ''BAN_MEMBERS''],
        missingBotPerms = [''SEND_MESSAGES''], reason = None\<rparr>"
  let ?c = "exCommand 0 ?info"
  have r: "reachesPermissionCheck prodConfig (exRegistry ?c) exInteraction ?c"
    by (simp add: reachesPermissionCheck_def passesDevGate_def prodConfig_def exRegistry_def
        exInteraction_def exCommand_def)
  have i: "hasPermissionToRun ?c (fetchedMember exInteraction) (interaction_guild exInteraction)
      = ?info"
    by (simp add: exCommand_def)
  have b: "embed_fields (generateBlankEmbed exUtil (interaction_user exInteraction) ''RED'') = []"
    by (simp add: exUtil_def)
  have nr: "\<not> canRun (hasPermissionToRun ?c (fetchedMember exInteraction) (interaction_guild exInteraction))"
    unfolding i by simp
  have nt: "\<not> truthy_string (reason (hasPermissionToRun ?c (fetchedMember exInteraction) (interaction_guild exInteraction)))"
    unfolding i by simp
  from missing_permissions_reply
    [where cfg = prodConfig and i = exInteraction and util = exUtil and c = ?c
       and NameCommands = "exRegistry ?c", OF r nr nt b]
  show ?thesis
    unfolding i using r b by (simp add: Let_def exUtil_def)
qed

section \<open>The combined wait: one cleanup, one resolution\<close>

subsection \<open>The fields after each operation\<close>









lemma promise_pending_update [simp]: "promise (s\<lparr>pending := p\<rparr>) = promise s"
  by (simp add: promise_def)
























section \<open>Cancel token, timeout and send failure\<close>


lemmas normal_listener_defs = normalCollect_def normalAfterDelete_def normalAfterFunc_def







subsection \<open>The extractor's value on a cancel message plays no part\<close>






subsection \<open>A cancel message on its way through the text-only wait\<close>











subsection \<open>A cancel message on its way through the combined wait\<close>











subsection \<open>Runs from the start\<close>













text \<open>
  Claim C4, as stated, fails for the text-only wait: when sending the bot message
  throws, \<open>startNormalCollector\<close> does not return \<open>null\<close> but goes on without the
  message, and a later message of the target author resolves it to a matched value.
\<close>

theorem send_failure_text_wait_counterexample:
  "msgOptions exOptions = Some ''Which course?''
   \<and> initSendCollectorMessage exOptions (Inl (Error ''Missing Access'')) = None
   \<and> promise (startNormalCollector exLowerCase exOptions exFunc exTruthy (Inl (Error ''Missing Access''))
        [MessageCreate (exMessage (js ''CSE 100'')), Resume (AwaitFilter (exMessage (js ''CSE 100''))),
         Resume (AwaitDelete (exMessage (js ''CSE 100''))),
         Resume (AwaitFunc (exMessage (js ''CSE 100'')))]) = Some (Matched (js ''CSE 100''))"
proof -
  have k: "\<not> cancels exLowerCase (Some (js ''cancel''))
               \<lparr>message_author = ''42'', message_content = js ''CSE 100''\<rparr>"
    by (simp add: cancels_def exLowerCase_def js_def)
  have d: "js ''CSE 100'' \<noteq> []" by (simp add: js_def)
  show ?thesis
    by (simp add: startNormalCollector_def initSendCollectorMessage_def tryExecuteAsync_def
        initialState_def normalStep_def normal_listener_defs normalStop_def normalEnd_def
        resolve_def perform_def suspend_def promise_def k d
        exOptions_def exMessage_def exTruthy_def exFunc_def Let_def)
qed

text \<open>
  Claim C4, amended. If sending the initial bot message throws, the error is swallowed
  and \<open>initSendCollectorMessage\<close> yields \<open>null\<close>. The owned component wait and the
  combined wait then return \<open>null\<close> without waiting and without touching any message,
  whatever arrives. The text-only wait swallows the error as well and goes on as a
  wait without a bot message; on timeout it resolves to \<open>null\<close>. The silent component
  wait sends no message. When no interaction that passes the filter arrives in time,
  \<open>awaitMessageComponent\<close> rejects, the rejection is caught, and both component waits
  return \<open>null\<close>.
\<close>

theorem send_failure_outcomes:
  assumes "msgOptions options \<noteq> None"
  shows
    "initSendCollectorMessage options (Inl err) = None
     \<and> startInteractionCollector options (Inl err) arriving = (None, [])
     \<and> startDoubleCollector toLowerCase options func (Inl err) events
         = initialState\<lparr>resolved := [NoResult]\<rparr>
     \<and> promise (startDoubleCollector toLowerCase options func (Inl err) events) = Some NoResult
     \<and> startNormalCollector toLowerCase options func truthy (Inl err) events
         = foldl (normalStep toLowerCase options func truthy None) initialState events
     \<and> promise (startNormalCollector toLowerCase options func truthy (Inl err) [MessageCollectorEnd ''time''])
         = Some NoResult
     \<and> ((\<forall>i\<in>set arriving. \<not> (component_user i = targetAuthor options
                                   \<and> startsWith (component_customId i) uniqueIdentifier))
          \<longrightarrow> startInteractionEphemeralCollector options uniqueIdentifier arriving = (None, []))
     \<and> ((\<forall>i\<in>set arriving. \<not> (component_message i = bot_message_id botMsg
                                   \<and> component_user i = targetAuthor options))
          \<longrightarrow> fst (startInteractionCollector options (Inr botMsg) arriving) = None)"
proof -
  have i: "initSendCollectorMessage options (Inl err) = None"
    using assms by (simp add: initSendCollectorMessage_def tryExecuteAsync_def)
  have s: "initSendCollectorMessage options (Inr botMsg) = Some botMsg"
    using assms by (simp add: initSendCollectorMessage_def tryExecuteAsync_def)
  have 1: "startInteractionCollector options (Inl err) arriving = (None, [])"
    by (simp add: startInteractionCollector_def i)
  have 2: "startDoubleCollector toLowerCase options func (Inl err) events
      = initialState\<lparr>resolved := [NoResult]\<rparr>"
    by (simp add: startDoubleCollector_def i)
  have p2: "promise (startDoubleCollector toLowerCase options func (Inl err) events) = Some NoResult"
    by (simp add: startDoubleCollector_def i promise_def)
  have 3: "startNormalCollector toLowerCase options func truthy (Inl err) events
         = foldl (normalStep toLowerCase options func truthy None) initialState events"
    by (simp add: startNormalCollector_def i Let_def)
  have 4: "promise (startNormalCollector toLowerCase options func truthy (Inl err) [MessageCollectorEnd ''time''])
         = Some NoResult"
    by (simp add: startNormalCollector_def i normalStep_def normalStop_def normalEnd_def
        resolve_def initialState_def promise_def)
  have f: "find P xs = None" if "\<forall>x\<in>set xs. \<not> P x" for P :: "component_interaction \<Rightarrow> bool" and xs
    using that by (simp add: find_None_iff)
  have 5: "startInteractionEphemeralCollector options uniqueIdentifier arriving = (None, [])"
    if "\<forall>i\<in>set arriving. \<not> (component_user i = targetAuthor options
                                   \<and> startsWith (component_customId i) uniqueIdentifier)"
    using f [OF that] by (simp add: startInteractionEphemeralCollector_def awaitMessageComponent_def)
  have 6: "fst (startInteractionCollector options (Inr botMsg) arriving) = None"
    if "\<forall>i\<in>set arriving. \<not> (component_message i = bot_message_id botMsg
                                   \<and> component_user i = targetAuthor options)"
    using f [OF that]
    by (simp add: startInteractionCollector_def s awaitMessageComponent_def Let_def)
  from i 1 2 p2 3 4 5 6 show ?thesis by blast
qed

theorem send_failure_outcomes_witness:
  "msgOptions exOptions \<noteq> None
   \<and> initSendCollectorMessage exOptions (Inl (Error ''Missing Access'')) = None
   \<and> startInteractionCollector exOptions (Inl (Error ''Missing Access'')) [exClick] = (None, [])
   \<and> promise (startDoubleCollector exLowerCase exOptions exFunc (Inl (Error ''Missing Access''))
        [MessageCreate (exMessage (js ''CSE 100'')), InteractionCreate exClick]) = Some NoResult
   \<and> promise (startNormalCollector exLowerCase exOptions exFunc exTruthy (Inl (Error ''Missing Access''))
        [MessageCollectorEnd ''time'']) = Some NoResult
   \<and> \<not> (component_user (exClick\<lparr>component_user := ''7''\<rparr>) = targetAuthor exOptions
         \<and> startsWith (component_customId (exClick\<lparr>component_user := ''7''\<rparr>)) ''y'')
   \<and> startInteractionEphemeralCollector exOptions ''y'' [exClick\<lparr>component_user := ''7''\<rparr>]
       = (None, [])
   \<and> \<not> (component_message (exClick\<lparr>component_user := ''7''\<rparr>) = bot_message_id exBotMsg
         \<and> component_user (exClick\<lparr>component_user := ''7''\<rparr>) = targetAuthor exOptions)
   \<and> fst (startInteractionCollector exOptions (Inr exBotMsg) [exClick\<lparr>component_user := ''7''\<rparr>])
       = None"
proof -
  let ?e = "Error ''Missing Access''"
  let ?i = "exClick\<lparr>component_user := ''7''\<rparr>"
  have h: "msgOptions exOptions \<noteq> None" by (simp add: exOptions_def)
  have a: "\<not> (component_user ?i = targetAuthor exOptions
         \<and> startsWith (component_customId ?i) ''y'')"
    by (simp add: exOptions_def exClick_def)
  have b: "\<not> (component_message ?i = bot_message_id exBotMsg
         \<and> component_user ?i = targetAuthor exOptions)"
    by (simp add: exOptions_def exClick_def)
  from send_failure_outcomes
    [where options = exOptions and err = ?e and arriving = "[exClick]" and func = exFunc
       and truthy = exTruthy and toLowerCase = exLowerCase
       and events = "[MessageCreate (exMessage (js ''CSE 100'')), InteractionCreate exClick]", OF h]
  have 1: "initSendCollectorMessage exOptions (Inl ?e) = None"
    and 2: "startInteractionCollector exOptions (Inl ?e) [exClick] = (None, [])"
    and 3: "promise (startDoubleCollector exLowerCase exOptions exFunc (Inl ?e)
        [MessageCreate (exMessage (js ''CSE 100'')), InteractionCreate exClick]) = Some NoResult"
    and 4: "promise (startNormalCollector exLowerCase exOptions exFunc exTruthy (Inl ?e)
        [MessageCollectorEnd ''time'']) = Some NoResult"
    by blast+
  from send_failure_outcomes
    [where options = exOptions and err = ?e and arriving = "[?i]" and func = exFunc
       and truthy = exTruthy and toLowerCase = exLowerCase and events = "[]" and uniqueIdentifier = "''y''"
       and botMsg = exBotMsg, OF h] a b
  have 5: "startInteractionEphemeralCollector exOptions ''y'' [?i] = (None, [])"
    and 6: "fst (startInteractionCollector exOptions (Inr exBotMsg) [?i]) = None"
    by simp_all
  from h a b 1 2 3 4 5 6 show ?thesis by simp
qed

end
